theory Spec2Isabelle
  imports
    Main
    "HOL-Library.AList"
    "HOL-Library.Char_ord"
    "HOL-Library.List_Lexorder"
    "HOL-Library.Option_ord"
begin

section \<open>The journal sync server (server.py): data model\<close>

text \<open>
  The request bodies of \<^verbatim>\<open>server.py\<close> are JSON. \<^verbatim>\<open>SyncPayload\<close> declares
  \<^verbatim>\<open>config: list[dict[str, Any]]\<close> and \<^verbatim>\<open>days: dict[str, dict[str, dict[str, Any]]]\<close>, so the
  handlers read every field of an item with \<^verbatim>\<open>dict.get\<close> and meet whatever JSON value the
  client sent. A Python dict is an association list in insertion order (its keys are
  distinct); \<^verbatim>\<open>d[k] = v\<close> is \<open>AList.update\<close>: in place when the key is there, appended
  otherwise.

  JSON numbers are integers here (Python's unbounded \<^verbatim>\<open>int\<close>): what the code does with a
  non-integral number rests on floating point and is left out.
\<close>

datatype json =
    JNull
  | JBool bool
  | JInt int
  | JStr string
  | JArr "json list"
  | JObj "(string \<times> json) list"

type_synonym dict = "(string \<times> json) list"

text \<open>\<^verbatim>\<open>d.get(k, default)\<close>; \<^verbatim>\<open>d.get(k)\<close> is \<open>dict_get d k JNull\<close>.\<close>

definition dict_get :: "dict \<Rightarrow> string \<Rightarrow> json \<Rightarrow> json" where
  "dict_get d k dflt = (case map_of d k of None \<Rightarrow> dflt | Some v \<Rightarrow> v)"

text \<open>\<^verbatim>\<open>d.update(m)\<close>: the pairs of \<open>m\<close> are stored into \<open>d\<close> one after the other.\<close>

definition dict_update :: "dict \<Rightarrow> dict \<Rightarrow> dict" where
  "dict_update d m = fold (\<lambda>kv. AList.update (fst kv) (snd kv)) m d"

text \<open>Python truthiness of a JSON value (\<^verbatim>\<open>if is_deleted:\<close>, \<^verbatim>\<open>1 if completed else ...\<close>).\<close>

fun truthy :: "json \<Rightarrow> bool" where
  "truthy JNull = False"
| "truthy (JBool b) = b"
| "truthy (JInt n) = (n \<noteq> 0)"
| "truthy (JStr s) = (s \<noteq> [])"
| "truthy (JArr xs) = (xs \<noteq> [])"
| "truthy (JObj kvs) = (kvs \<noteq> [])"

text \<open>
  The values an \<^verbatim>\<open>int\<close> can be compared with by \<^verbatim>\<open>>\<close>: an \<^verbatim>\<open>int\<close>, or a \<^verbatim>\<open>bool\<close>
  (\<^verbatim>\<open>True == 1\<close>). Against \<^verbatim>\<open>None\<close>, a string, a list or a dict the comparison raises
  \<^verbatim>\<open>TypeError\<close>.
\<close>

fun as_int :: "json \<Rightarrow> int option" where
  "as_int (JInt n) = Some n"
| "as_int (JBool b) = Some (if b then 1 else 0)"
| "as_int _ = None"

text \<open>
  The values \<^verbatim>\<open>sqlite3\<close> binds to a statement parameter: \<^verbatim>\<open>None\<close>, a \<^verbatim>\<open>bool\<close>, a
  string, and an \<^verbatim>\<open>int\<close> that fits SQLite's 64-bit INTEGER. Binding a list, a dict or a
  larger \<^verbatim>\<open>int\<close> raises.
\<close>

fun bindable :: "json \<Rightarrow> bool" where
  "bindable (JArr _) = False"
| "bindable (JObj _) = False"
| "bindable (JInt n) = (- (2 ^ 63) \<le> n \<and> n < 2 ^ 63)"
| "bindable _ = True"

definition opt_json :: "string option \<Rightarrow> json" where
  "opt_json x = (case x of None \<Rightarrow> JNull | Some s \<Rightarrow> JStr s)"

datatype error =
    TypeError
  | BindError
  | ValueError
  | UnmodelledId

subsection \<open>The tables\<close>

text \<open>
  One record per table row, the primary key apart: a table is an association list from
  its key to the rest of the row, in rowid order. The columns \<^verbatim>\<open>version\<close> and
  \<^verbatim>\<open>deleted\<close> carry a \<^verbatim>\<open>DEFAULT\<close> and are written by every statement of the program, so
  they are never NULL; \<^verbatim>\<open>last_modified_by\<close> and \<^verbatim>\<open>last_modified_at\<close> are NULL on rows that
  predate versioning. \<^verbatim>\<open>meta_json\<close> holds the dict that \<^verbatim>\<open>json.dumps\<close> wrote and
  \<^verbatim>\<open>json.loads\<close> reads back. A column holds the scalar that was bound to it: the
  conversions of SQLite's column affinity are not modelled. A version is a Python
  \<^verbatim>\<open>int\<close>; that the column would overflow after \<open>2 ^ 63\<close> writes is not modelled.
\<close>

record tracker_row =
  t_name :: json
  t_category :: json
  t_type :: json
  t_meta_json :: "dict option"
  t_version :: int
  t_last_modified_by :: "string option"
  t_last_modified_at :: "string option"
  t_deleted :: int

record entry_row =
  e_value :: json
  e_completed :: "int option"
  e_version :: int
  e_last_modified_by :: "string option"
  e_last_modified_at :: "string option"

record conflict_row =
  c_id :: nat
  c_entity_type :: string
  c_entity_id :: string
  c_client_id :: string
  c_client_data :: "dict option"
  c_server_data :: "dict option"
  c_resolution :: string
  c_resolved_at :: "string option"
  c_created_at :: "string option"

record client_row =
  cl_name :: string
  cl_last_seen_at :: string

record db =
  clients :: "(string \<times> client_row) list"
  last_server_sync_time :: "string option"
  trackers :: "(string \<times> tracker_row) list"
  entries :: "((string \<times> string) \<times> entry_row) list"
  sync_conflicts :: "conflict_row list"

text \<open>\<^verbatim>\<open>init_database\<close> on a fresh file: every table exists and is empty.\<close>

definition init_database :: db where
  "init_database =
     \<lparr>clients = [], last_server_sync_time = None, trackers = [], entries = [],
      sync_conflicts = []\<rparr>"

text \<open>
  \<^verbatim>\<open>INSERT ... ON CONFLICT(key) DO UPDATE SET\<close> every other column: the row is
  overwritten where it is, or appended. \<^verbatim>\<open>INSERT OR REPLACE\<close> deletes the row with that
  key and inserts the new one. \<^verbatim>\<open>UPDATE ... WHERE key = ?\<close> changes the rows with that
  key and inserts nothing.
\<close>

definition upsert :: "'k \<Rightarrow> 'r \<Rightarrow> ('k \<times> 'r) list \<Rightarrow> ('k \<times> 'r) list" where
  "upsert k r tab = AList.update k r tab"

definition insert_or_replace :: "'k \<Rightarrow> 'r \<Rightarrow> ('k \<times> 'r) list \<Rightarrow> ('k \<times> 'r) list" where
  "insert_or_replace k r tab = AList.delete k tab @ [(k, r)]"

definition update_where :: "'k \<Rightarrow> ('r \<Rightarrow> 'r) \<Rightarrow> ('k \<times> 'r) list \<Rightarrow> ('k \<times> 'r) list" where
  "update_where k f tab = map (\<lambda>kr. if fst kr = k then (fst kr, f (snd kr)) else kr) tab"

subsection \<open>Request and response models\<close>

record sync_payload =
  clientId :: string
  config :: "dict list"
  days :: "(string \<times> (string \<times> dict) list) list"
  lastSyncTime :: "string option"

record conflict_info =
  entityType :: string
  entityId :: string
  serverVersion :: int
  clientBaseVersion :: int
  serverData :: dict

record sync_response =
  success :: bool
  conflicts :: "conflict_info list"
  appliedConfig :: "dict list"
  appliedDays :: "(string \<times> (string \<times> dict) list) list"
  lastModified :: "string option"
  overwrittenData :: "dict list"

record snapshot =
  snap_config :: "dict list"
  snap_days :: "(string \<times> (string \<times> dict) list) list"
  snap_deletedTrackers :: "string list"
  snap_serverTime :: string

section \<open>sync\_update: the push handler\<close>

text \<open>The local variables of \<^verbatim>\<open>sync_update\<close> that its two loops carry along.\<close>

record acc =
  a_db :: db
  a_conflicts :: "conflict_info list"
  a_applied_config :: "dict list"
  a_applied_days :: "(string \<times> (string \<times> dict) list) list"

definition excluded_keys :: "string list" where
  "excluded_keys =
     [''id'', ''name'', ''category'', ''type'', ''_version'', ''_baseVersion'',
      ''_lastModifiedBy'', ''_lastModifiedAt'', ''_deleted'']"

text \<open>\<^verbatim>\<open>{k: v for k, v in item.items() if k not in excluded_keys}\<close>\<close>

definition meta_of :: "dict \<Rightarrow> dict" where
  "meta_of item = filter (\<lambda>kv. fst kv \<notin> set excluded_keys) item"

text \<open>
  \<^verbatim>\<open>server_version > client_base_version\<close>, with \<^verbatim>\<open>server_version\<close> an \<^verbatim>\<open>int\<close> read from
  the table and \<^verbatim>\<open>client_base_version\<close> whatever the client sent.
\<close>

definition py_gt :: "int \<Rightarrow> json \<Rightarrow> error + bool" where
  "py_gt server_version client_base_version =
     (case as_int client_base_version of
        None \<Rightarrow> Inl TypeError
      | Some b \<Rightarrow> Inr (server_version > b))"

text \<open>
  \<^verbatim>\<open>ConflictInfo.clientBaseVersion\<close> is declared \<^verbatim>\<open>int\<close>; a value reaches it only after
  the comparison went through, so it is an \<^verbatim>\<open>int\<close> or a \<^verbatim>\<open>bool\<close>.
\<close>

definition base_version_int :: "json \<Rightarrow> int" where
  "base_version_int j = (case as_int j of None \<Rightarrow> 0 | Some b \<Rightarrow> b)"

definition tracker_server_data :: "string \<Rightarrow> tracker_row \<Rightarrow> dict" where
  "tracker_server_data tracker_id row =
     (let server_data =
            [(''id'', JStr tracker_id), (''name'', t_name row),
             (''category'', t_category row), (''type'', t_type row),
             (''_version'', JInt (t_version row))]
      in case t_meta_json row of
           None \<Rightarrow> server_data
         | Some meta \<Rightarrow> dict_update server_data meta)"

text \<open>The conflict branch: the conflict is appended, \<^verbatim>\<open>continue\<close>.\<close>

definition tracker_conflict :: "string \<Rightarrow> tracker_row \<Rightarrow> json \<Rightarrow> acc \<Rightarrow> acc" where
  "tracker_conflict tracker_id row client_base_version a =
     a\<lparr>a_conflicts := a_conflicts a @
         [\<lparr>entityType = ''tracker'', entityId = tracker_id,
           serverVersion = t_version row,
           clientBaseVersion = base_version_int client_base_version,
           serverData = tracker_server_data tracker_id row\<rparr>]\<rparr>"

text \<open>
  \<^verbatim>\<open>{**item, "_version": new_version, "_lastModifiedBy": client_id, "_lastModifiedAt": now}\<close>
\<close>

definition applied_item :: "string \<Rightarrow> string \<Rightarrow> int \<Rightarrow> dict \<Rightarrow> dict" where
  "applied_item client_id now new_version item =
     AList.update ''_lastModifiedAt'' (JStr now)
       (AList.update ''_lastModifiedBy'' (JStr client_id)
         (AList.update ''_version'' (JInt new_version) item))"

text \<open>The branch "No conflict - apply update".\<close>

definition tracker_apply ::
  "string \<Rightarrow> string \<Rightarrow> dict \<Rightarrow> string \<Rightarrow> int \<Rightarrow> acc \<Rightarrow> error + acc" where
  "tracker_apply client_id now item tracker_id server_version a =
     (let is_deleted = dict_get item ''_deleted'' (JBool False);
          name = dict_get item ''name'' JNull;
          category = dict_get item ''category'' (JStr []);
          tracker_type = dict_get item ''type'' (JStr ''simple'');
          new_version = server_version + 1;
          meta = meta_of item;
          applied = applied_item client_id now new_version item
      in if truthy is_deleted then
           Inr (a\<lparr>a_db := (a_db a)\<lparr>trackers :=
                   update_where tracker_id
                     (\<lambda>r. r\<lparr>t_deleted := 1, t_version := new_version,
                            t_last_modified_by := Some client_id,
                            t_last_modified_at := Some now\<rparr>)
                     (trackers (a_db a))\<rparr>,
                 a_applied_config := a_applied_config a @ [applied]\<rparr>)
         else if bindable name \<and> bindable category \<and> bindable tracker_type then
           Inr (a\<lparr>a_db := (a_db a)\<lparr>trackers :=
                   upsert tracker_id
                     \<lparr>t_name = name, t_category = category, t_type = tracker_type,
                      t_meta_json = Some meta, t_version = new_version,
                      t_last_modified_by = Some client_id,
                      t_last_modified_at = Some now, t_deleted = 0\<rparr>
                     (trackers (a_db a))\<rparr>,
                 a_applied_config := a_applied_config a @ [applied]\<rparr>)
         else Inl BindError)"

text \<open>
  The body of the loop over \<^verbatim>\<open>payload.config\<close>, for a string id. The test
  \<^verbatim>\<open>row and server_version > client_base_version\<close> does not evaluate the comparison when
  there is no row, and \<^verbatim>\<open>server_version\<close> is then 0.
\<close>

definition tracker_item_str :: "string \<Rightarrow> string \<Rightarrow> dict \<Rightarrow> string \<Rightarrow> acc \<Rightarrow> error + acc" where
  "tracker_item_str client_id now item tracker_id a =
     (let client_base_version = dict_get item ''_baseVersion'' (JInt 0)
      in case map_of (trackers (a_db a)) tracker_id of
           None \<Rightarrow> tracker_apply client_id now item tracker_id 0 a
         | Some row \<Rightarrow>
             (case py_gt (t_version row) client_base_version of
                Inl e \<Rightarrow> Inl e
              | Inr c \<Rightarrow>
                  if c then Inr (tracker_conflict tracker_id row client_base_version a)
                  else tracker_apply client_id now item tracker_id (t_version row) a))"

text \<open>
  \<^verbatim>\<open>tracker_id = item.get("id")\<close> is bound to the SELECT. A list or a dict cannot be
  bound. A string is the case modelled. For a missing id, \<^verbatim>\<open>null\<close> or a number SQLite
  has rules of its own (a NULL key, a number stored as text) that are left out: the
  model stops with \<open>UnmodelledId\<close> and says nothing about the code there.
\<close>

definition tracker_item :: "string \<Rightarrow> string \<Rightarrow> dict \<Rightarrow> acc \<Rightarrow> error + acc" where
  "tracker_item client_id now item a =
     (case dict_get item ''id'' JNull of
        JStr tracker_id \<Rightarrow> tracker_item_str client_id now item tracker_id a
      | JArr _ \<Rightarrow> Inl BindError
      | JObj _ \<Rightarrow> Inl BindError
      | _ \<Rightarrow> Inl UnmodelledId)"

fun process_config :: "string \<Rightarrow> string \<Rightarrow> dict list \<Rightarrow> acc \<Rightarrow> error + acc" where
  "process_config client_id now [] a = Inr a"
| "process_config client_id now (item # items) a =
     (case tracker_item client_id now item a of
        Inl e \<Rightarrow> Inl e
      | Inr a' \<Rightarrow> process_config client_id now items a')"

subsection \<open>The loop over the daily logs\<close>

text \<open>\<^verbatim>\<open>1 if completed else 0 if completed is not None else None\<close>\<close>

definition completed_int :: "json \<Rightarrow> int option" where
  "completed_int completed =
     (if truthy completed then Some 1 else if completed \<noteq> JNull then Some 0 else None)"

text \<open>\<^verbatim>\<open>bool(row["completed"]) if row["completed"] is not None else None\<close>\<close>

definition completed_json :: "int option \<Rightarrow> json" where
  "completed_json c = (case c of None \<Rightarrow> JNull | Some n \<Rightarrow> JBool (n \<noteq> 0))"

definition entry_server_data :: "entry_row \<Rightarrow> dict" where
  "entry_server_data row =
     [(''value'', e_value row), (''completed'', completed_json (e_completed row)),
      (''_version'', JInt (e_version row))]"

definition entry_conflict :: "string \<Rightarrow> string \<Rightarrow> entry_row \<Rightarrow> json \<Rightarrow> acc \<Rightarrow> acc" where
  "entry_conflict date_str tracker_id row client_base_version a =
     a\<lparr>a_conflicts := a_conflicts a @
         [\<lparr>entityType = ''entry'', entityId = date_str @ ''|'' @ tracker_id,
           serverVersion = e_version row,
           clientBaseVersion = base_version_int client_base_version,
           serverData = entry_server_data row\<rparr>]\<rparr>"

text \<open>
  \<^verbatim>\<open>applied_days[date_str][tracker_id] = out\<close>. The outer loop has stored
  \<^verbatim>\<open>applied_days[date_str] = {}\<close> before, so the lookup of \<^verbatim>\<open>date_str\<close> finds a dict.
\<close>

definition days_set ::
  "string \<Rightarrow> string \<Rightarrow> dict \<Rightarrow> (string \<times> (string \<times> dict) list) list
     \<Rightarrow> (string \<times> (string \<times> dict) list) list" where
  "days_set date_str tracker_id out ds =
     AList.update date_str
       (AList.update tracker_id out (case map_of ds date_str of None \<Rightarrow> [] | Some m \<Rightarrow> m)) ds"

definition entry_apply ::
  "string \<Rightarrow> string \<Rightarrow> string \<Rightarrow> string \<Rightarrow> dict \<Rightarrow> int \<Rightarrow> acc \<Rightarrow> error + acc" where
  "entry_apply client_id now date_str tracker_id data server_version a =
     (let value = dict_get data ''value'' JNull;
          completed = dict_get data ''completed'' JNull;
          new_version = server_version + 1
      in if bindable value then
           Inr (a\<lparr>a_db := (a_db a)\<lparr>entries :=
                   upsert (date_str, tracker_id)
                     \<lparr>e_value = value, e_completed = completed_int completed,
                      e_version = new_version, e_last_modified_by = Some client_id,
                      e_last_modified_at = Some now\<rparr>
                     (entries (a_db a))\<rparr>,
                 a_applied_days := days_set date_str tracker_id
                     [(''value'', value), (''completed'', completed),
                      (''_version'', JInt new_version),
                      (''_lastModifiedBy'', JStr client_id),
                      (''_lastModifiedAt'', JStr now)]
                     (a_applied_days a)\<rparr>)
         else Inl BindError)"

definition entry_item ::
  "string \<Rightarrow> string \<Rightarrow> string \<Rightarrow> string \<Rightarrow> dict \<Rightarrow> acc \<Rightarrow> error + acc" where
  "entry_item client_id now date_str tracker_id data a =
     (let client_base_version = dict_get data ''_baseVersion'' (JInt 0)
      in case map_of (entries (a_db a)) (date_str, tracker_id) of
           None \<Rightarrow> entry_apply client_id now date_str tracker_id data 0 a
         | Some row \<Rightarrow>
             (case py_gt (e_version row) client_base_version of
                Inl e \<Rightarrow> Inl e
              | Inr c \<Rightarrow>
                  if c then Inr (entry_conflict date_str tracker_id row client_base_version a)
                  else entry_apply client_id now date_str tracker_id data (e_version row) a))"

fun process_trackers_map ::
  "string \<Rightarrow> string \<Rightarrow> string \<Rightarrow> (string \<times> dict) list \<Rightarrow> acc \<Rightarrow> error + acc" where
  "process_trackers_map client_id now date_str [] a = Inr a"
| "process_trackers_map client_id now date_str ((tracker_id, data) # rest) a =
     (case entry_item client_id now date_str tracker_id data a of
        Inl e \<Rightarrow> Inl e
      | Inr a' \<Rightarrow> process_trackers_map client_id now date_str rest a')"

fun process_days ::
  "string \<Rightarrow> string \<Rightarrow> (string \<times> (string \<times> dict) list) list \<Rightarrow> acc \<Rightarrow> error + acc" where
  "process_days client_id now [] a = Inr a"
| "process_days client_id now ((date_str, trackers_map) # rest) a =
     (let a1 = (if date_str \<notin> fst ` set (a_applied_days a)
                then a\<lparr>a_applied_days := AList.update date_str [] (a_applied_days a)\<rparr>
                else a)
      in case process_trackers_map client_id now date_str trackers_map a1 of
           Inl e \<Rightarrow> Inl e
         | Inr a' \<Rightarrow> process_days client_id now rest a')"

subsection \<open>The handler\<close>

text \<open>
  \<open>now\<close> is what \<^verbatim>\<open>get_utc_now()\<close> returned. The handler returns \<open>Inl\<close> where the
  code rolls the transaction back and raises \<^verbatim>\<open>HTTPException(500)\<close>: the database is
  then the one before the request. Otherwise it returns the response and the committed
  database.
\<close>

definition sync_update :: "string \<Rightarrow> sync_payload \<Rightarrow> db \<Rightarrow> error + (sync_response \<times> db)" where
  "sync_update now payload s =
     (let client_id = clientId payload;
          s1 = s\<lparr>clients := insert_or_replace client_id
                   \<lparr>cl_name = ''Client-'' @ take 8 client_id, cl_last_seen_at = now\<rparr>
                   (clients s)\<rparr>;
          a0 = \<lparr>a_db = s1, a_conflicts = [], a_applied_config = [], a_applied_days = []\<rparr>
      in case process_config client_id now (config payload) a0 of
           Inl e \<Rightarrow> Inl e
         | Inr a1 \<Rightarrow>
             (case process_days client_id now (days payload) a1 of
                Inl e \<Rightarrow> Inl e
              | Inr a2 \<Rightarrow>
                  (let s2 = (if a_conflicts a2 = []
                             then (a_db a2)\<lparr>last_server_sync_time := Some now\<rparr>
                             else a_db a2)
                   in Inr (\<lparr>success = (length (a_conflicts a2) = 0),
                            conflicts = a_conflicts a2,
                            appliedConfig = a_applied_config a2,
                            appliedDays = a_applied_days a2,
                            lastModified = (if a_conflicts a2 = [] then Some now else None),
                            overwrittenData = []\<rparr>, s2))))"

text \<open>The database after a request, whether it was committed or rolled back.\<close>

definition db_after :: "(error + ('r \<times> db)) \<Rightarrow> db \<Rightarrow> db" where
  "db_after res s = (case res of Inl _ \<Rightarrow> s | Inr (_, s') \<Rightarrow> s')"

text \<open>The response of a request, when there is one.\<close>

definition response_of :: "(error + ('r \<times> db)) \<Rightarrow> 'r option" where
  "response_of res = (case res of Inl _ \<Rightarrow> None | Inr (r, _) \<Rightarrow> Some r)"

section \<open>resolve\_conflict\<close>

text \<open>
  \<^verbatim>\<open>entity_id.split("|")\<close>: the pieces between the separators, one more than there are
  separators.
\<close>

fun split_on :: "char \<Rightarrow> string \<Rightarrow> string list" where
  "split_on c [] = [[]]"
| "split_on c (x # xs) =
     (if x = c then [] # split_on c xs
      else (case split_on c xs of [] \<Rightarrow> [[x]] | p # ps \<Rightarrow> (x # p) # ps))"

text \<open>
  \<^verbatim>\<open>client_data\<close> is \<^verbatim>\<open>Optional[dict]\<close>; \<^verbatim>\<open>if ... and client_data\<close> holds for a dict that
  is not empty. The handler has no \<^verbatim>\<open>try\<close>: an exception leaves the transaction
  uncommitted, and closing the connection drops it.
\<close>

definition resolve_tracker :: "string \<Rightarrow> string \<Rightarrow> string \<Rightarrow> dict \<Rightarrow> db \<Rightarrow> error + db" where
  "resolve_tracker now entity_id client_id client_data s =
     (let new_version =
            (case map_of (trackers s) entity_id of None \<Rightarrow> 0 | Some row \<Rightarrow> t_version row) + 1;
          name = dict_get client_data ''name'' JNull;
          category = dict_get client_data ''category'' (JStr []);
          tracker_type = dict_get client_data ''type'' (JStr ''simple'');
          meta = meta_of client_data
      in if bindable name \<and> bindable category \<and> bindable tracker_type then
           Inr (s\<lparr>trackers :=
                  insert_or_replace entity_id
                    \<lparr>t_name = name, t_category = category, t_type = tracker_type,
                     t_meta_json = Some meta, t_version = new_version,
                     t_last_modified_by = Some client_id,
                     t_last_modified_at = Some now, t_deleted = 0\<rparr>
                    (trackers s)\<rparr>)
         else Inl BindError)"

definition resolve_entry :: "string \<Rightarrow> string \<Rightarrow> string \<Rightarrow> dict \<Rightarrow> db \<Rightarrow> error + db" where
  "resolve_entry now entity_id client_id client_data s =
     (case split_on CHR ''|'' entity_id of
        [date_str, tracker_id] \<Rightarrow>
          (let new_version =
                 (case map_of (entries s) (date_str, tracker_id) of
                    None \<Rightarrow> 0 | Some row \<Rightarrow> e_version row) + 1;
               value = dict_get client_data ''value'' JNull;
               completed = dict_get client_data ''completed'' JNull
           in if bindable value then
                Inr (s\<lparr>entries :=
                       insert_or_replace (date_str, tracker_id)
                         \<lparr>e_value = value, e_completed = completed_int completed,
                          e_version = new_version, e_last_modified_by = Some client_id,
                          e_last_modified_at = Some now\<rparr>
                         (entries s)\<rparr>)
              else Inl BindError)
      | _ \<Rightarrow> Inl ValueError)"

text \<open>Truthiness of \<^verbatim>\<open>client_data\<close>: not \<^verbatim>\<open>None\<close> and not the empty dict.\<close>

definition dict_truthy :: "dict option \<Rightarrow> bool" where
  "dict_truthy d = (case d of None \<Rightarrow> False | Some kvs \<Rightarrow> kvs \<noteq> [])"

text \<open>The block under \<^verbatim>\<open>if resolution == "client" and client_data:\<close>.\<close>

definition force_apply ::
  "string \<Rightarrow> string \<Rightarrow> string \<Rightarrow> string \<Rightarrow> dict \<Rightarrow> db \<Rightarrow> error + db" where
  "force_apply now entity_type entity_id client_id client_data s =
     (if entity_type = ''tracker'' then resolve_tracker now entity_id client_id client_data s
      else if entity_type = ''entry'' then resolve_entry now entity_id client_id client_data s
      else Inr s)"

text \<open>"Log the resolution" and "Update sync time".\<close>

definition log_resolution ::
  "string \<Rightarrow> string \<Rightarrow> string \<Rightarrow> string \<Rightarrow> string \<Rightarrow> dict option \<Rightarrow> db \<Rightarrow> db" where
  "log_resolution now entity_type entity_id resolution client_id client_data s =
     s\<lparr>sync_conflicts := sync_conflicts s @
          [\<lparr>c_id = Suc (length (sync_conflicts s)),
            c_entity_type = entity_type, c_entity_id = entity_id,
            c_client_id = client_id,
            c_client_data = (if dict_truthy client_data then client_data else None),
            c_server_data = None,
            c_resolution = resolution,
            c_resolved_at = Some now, c_created_at = Some now\<rparr>],
       last_server_sync_time := Some now\<rparr>"

definition resolve_conflict ::
  "string \<Rightarrow> string \<Rightarrow> string \<Rightarrow> string \<Rightarrow> string \<Rightarrow> dict option \<Rightarrow> db
     \<Rightarrow> error + (dict \<times> db)" where
  "resolve_conflict now entity_type entity_id resolution client_id client_data s =
     (case (case client_data of
              None \<Rightarrow> Inr s
            | Some cd \<Rightarrow>
                if resolution = ''client'' \<and> cd \<noteq> []
                then force_apply now entity_type entity_id client_id cd s
                else Inr s) of
        Inl e \<Rightarrow> Inl e
      | Inr s1 \<Rightarrow>
          Inr ([(''status'', JStr ''ok''), (''resolution'', JStr resolution),
                (''entityId'', JStr entity_id)],
               log_resolution now entity_type entity_id resolution client_id client_data s1))"

section \<open>The read handlers\<close>

text \<open>\<^verbatim>\<open>row["version"] or 1\<close>\<close>

definition version_or_1 :: "int \<Rightarrow> int" where
  "version_or_1 v = (if v = 0 then 1 else v)"

text \<open>The flat tracker dict of \<^verbatim>\<open>sync_full\<close> and \<^verbatim>\<open>sync_delta\<close>, the meta fields merged in.\<close>

definition tracker_out :: "string \<Rightarrow> tracker_row \<Rightarrow> dict" where
  "tracker_out tracker_id row =
     (let tracker =
            [(''id'', JStr tracker_id), (''name'', t_name row),
             (''category'', t_category row), (''type'', t_type row),
             (''_version'', JInt (version_or_1 (t_version row))),
             (''_lastModifiedBy'', opt_json (t_last_modified_by row)),
             (''_lastModifiedAt'', opt_json (t_last_modified_at row))]
      in case t_meta_json row of
           None \<Rightarrow> tracker
         | Some meta \<Rightarrow> dict_update tracker meta)"

definition entry_out :: "entry_row \<Rightarrow> dict" where
  "entry_out row =
     [(''value'', e_value row), (''completed'', completed_json (e_completed row)),
      (''_version'', JInt (version_or_1 (e_version row))),
      (''_lastModifiedBy'', opt_json (e_last_modified_by row)),
      (''_lastModifiedAt'', opt_json (e_last_modified_at row))]"

text \<open>The loop "Transform to client format" over the selected entry rows.\<close>

fun days_of ::
  "((string \<times> string) \<times> entry_row) list \<Rightarrow> (string \<times> (string \<times> dict) list) list
     \<Rightarrow> (string \<times> (string \<times> dict) list) list" where
  "days_of [] ds = ds"
| "days_of (((date_str, tracker_id), row) # rows) ds =
     (let ds1 = (if date_str \<notin> fst ` set ds then AList.update date_str [] ds else ds)
      in days_of rows (days_set date_str tracker_id (entry_out row) ds1))"

text \<open>
  \<^verbatim>\<open>sync_full\<close>. \<open>seven_days_ago\<close> is the date string the handler computes from the
  clock; SQLite compares TEXT bytewise, which is the lexicographic order on strings.
\<close>

definition sync_full :: "string \<Rightarrow> string \<Rightarrow> db \<Rightarrow> snapshot" where
  "sync_full now seven_days_ago s =
     (let tracker_rows = filter (\<lambda>kr. t_deleted (snd kr) = 0) (trackers s);
          entry_rows = filter (\<lambda>kr. fst (fst kr) \<ge> seven_days_ago) (entries s)
      in \<lparr>snap_config = map (\<lambda>kr. tracker_out (fst kr) (snd kr)) tracker_rows,
          snap_days = days_of entry_rows [],
          snap_deletedTrackers = [],
          snap_serverTime = now\<rparr>)"

text \<open>\<^verbatim>\<open>last_modified_at > ? OR last_modified_at IS NULL\<close>\<close>

definition modified_since :: "string \<Rightarrow> string option \<Rightarrow> bool" where
  "modified_since since last_modified_at =
     (case last_modified_at of None \<Rightarrow> True | Some t \<Rightarrow> t > since)"

text \<open>The loop of \<^verbatim>\<open>sync_delta\<close> over the selected tracker rows, with its two lists.\<close>

fun delta_trackers ::
  "(string \<times> tracker_row) list \<Rightarrow> dict list \<times> string list \<Rightarrow> dict list \<times> string list" where
  "delta_trackers [] (cfg, deleted_trackers) = (cfg, deleted_trackers)"
| "delta_trackers ((tracker_id, row) # rows) (cfg, deleted_trackers) =
     (if t_deleted row \<noteq> 0 then delta_trackers rows (cfg, deleted_trackers @ [tracker_id])
      else delta_trackers rows (cfg @ [tracker_out tracker_id row], deleted_trackers))"

definition sync_delta :: "string \<Rightarrow> string \<Rightarrow> string \<Rightarrow> string \<Rightarrow> db \<Rightarrow> snapshot" where
  "sync_delta now seven_days_ago since client_id s =
     (let tracker_rows = filter (\<lambda>kr. modified_since since (t_last_modified_at (snd kr))) (trackers s);
          entry_rows = filter (\<lambda>kr. modified_since since (e_last_modified_at (snd kr))
                                    \<and> fst (fst kr) \<ge> seven_days_ago) (entries s)
      in \<lparr>snap_config = fst (delta_trackers tracker_rows ([], [])),
          snap_days = days_of entry_rows [],
          snap_deletedTrackers = snd (delta_trackers tracker_rows ([], [])),
          snap_serverTime = now\<rparr>)"

text \<open>
  \<^verbatim>\<open>get_unresolved_conflicts\<close>: the rows of the client with \<^verbatim>\<open>resolved_at IS NULL\<close>,
  \<^verbatim>\<open>ORDER BY created_at DESC\<close> (NULL is the smallest value and comes last).
\<close>

definition conflict_out :: "conflict_row \<Rightarrow> dict" where
  "conflict_out row =
     [(''id'', JInt (int (c_id row))),
      (''entityType'', JStr (c_entity_type row)),
      (''entityId'', JStr (c_entity_id row)),
      (''clientData'', (case c_client_data row of None \<Rightarrow> JNull | Some d \<Rightarrow> JObj d)),
      (''serverData'', (case c_server_data row of None \<Rightarrow> JNull | Some d \<Rightarrow> JObj d)),
      (''createdAt'', opt_json (c_created_at row))]"

definition get_unresolved_conflicts :: "string \<Rightarrow> db \<Rightarrow> dict list" where
  "get_unresolved_conflicts client_id s =
     (let rows = filter (\<lambda>r. c_client_id r = client_id \<and> c_resolved_at r = None) (sync_conflicts s)
      in map conflict_out (rev (sort_key c_created_at rows)))"

definition sync_status :: "db \<Rightarrow> string option" where
  "sync_status s = last_server_sync_time s"

text \<open>\<^verbatim>\<open>client_name or f"Client-{client_id[:8]}"\<close>\<close>

definition register_client :: "string \<Rightarrow> string \<Rightarrow> string option \<Rightarrow> db \<Rightarrow> db" where
  "register_client now client_id client_name s =
     s\<lparr>clients := insert_or_replace client_id
         \<lparr>cl_name = (case client_name of
                       None \<Rightarrow> ''Client-'' @ take 8 client_id
                     | Some n \<Rightarrow> if n = [] then ''Client-'' @ take 8 client_id else n),
          cl_last_seen_at = now\<rparr>
         (clients s)\<rparr>"

section \<open>Reachable databases\<close>

text \<open>
  One committed request is a step from the database before it to the database after it.
  A request that fails, and every read, leaves the database as it is. The databases the
  server can be in are those it reaches from \<open>init_database\<close> by committed requests.
\<close>

inductive commits :: "db \<Rightarrow> db \<Rightarrow> bool" where
  commit_register: "commits s (register_client now client_id client_name s)"
| commit_update: "sync_update now payload s = Inr (resp, s') \<Longrightarrow> commits s s'"
| commit_resolve:
    "resolve_conflict now entity_type entity_id resolution client_id client_data s = Inr (resp, s')
     \<Longrightarrow> commits s s'"

definition reachable :: "db \<Rightarrow> bool" where
  "reachable s \<longleftrightarrow> rtranclp commits init_database s"

section \<open>Stored versions, outcomes of a turn, and invariants\<close>

text \<open>
  The stored version of a key, as the handlers read it:
  \<^verbatim>\<open>row["version"] if row else 0\<close>.
\<close>

definition tracker_version :: "db \<Rightarrow> string \<Rightarrow> int" where
  "tracker_version s tracker_id =
     (case map_of (trackers s) tracker_id of None \<Rightarrow> 0 | Some row \<Rightarrow> t_version row)"

definition entry_version :: "db \<Rightarrow> string \<Rightarrow> string \<Rightarrow> int" where
  "entry_version s date_str tracker_id =
     (case map_of (entries s) (date_str, tracker_id) of None \<Rightarrow> 0 | Some row \<Rightarrow> e_version row)"

text \<open>The PRIMARY KEY constraints of \<^verbatim>\<open>trackers\<close> and \<^verbatim>\<open>entries\<close>.\<close>

definition keys_unique :: "db \<Rightarrow> bool" where
  "keys_unique s \<longleftrightarrow> distinct (map fst (trackers s)) \<and> distinct (map fst (entries s))"

text \<open>Every row of the ledger carries a \<^verbatim>\<open>resolved_at\<close>.\<close>

definition all_resolved :: "db \<Rightarrow> bool" where
  "all_resolved s \<longleftrightarrow> list_all (\<lambda>r. c_resolved_at r \<noteq> None) (sync_conflicts s)"

text \<open>\<^verbatim>\<open>days[date_str][tracker_id]\<close> of a response, when it is there.\<close>

definition days_get ::
  "(string \<times> (string \<times> dict) list) list \<Rightarrow> string \<Rightarrow> string \<Rightarrow> dict option" where
  "days_get ds date_str tracker_id =
     (case map_of ds date_str of None \<Rightarrow> None | Some m \<Rightarrow> map_of m tracker_id)"

text \<open>
  What one turn of a loop of \<^verbatim>\<open>sync_update\<close> did with its item, read off the local
  variables before and after the turn. Applied: no conflict was added and the item was
  reported under the applied items with the next version. Conflict: a conflict was
  added, nothing was reported as applied and the database was not touched.
\<close>

definition tracker_applied :: "string \<Rightarrow> acc \<Rightarrow> acc \<Rightarrow> bool" where
  "tracker_applied tracker_id a a' \<longleftrightarrow>
     a_conflicts a' = a_conflicts a
     \<and> a_applied_config a' \<noteq> []
     \<and> butlast (a_applied_config a') = a_applied_config a
     \<and> dict_get (last (a_applied_config a')) ''_version'' JNull
         = JInt (tracker_version (a_db a) tracker_id + 1)"

definition entry_applied :: "string \<Rightarrow> string \<Rightarrow> acc \<Rightarrow> acc \<Rightarrow> bool" where
  "entry_applied date_str tracker_id a a' \<longleftrightarrow>
     a_conflicts a' = a_conflicts a
     \<and> (case days_get (a_applied_days a') date_str tracker_id of
          None \<Rightarrow> False
        | Some out \<Rightarrow>
            dict_get out ''_version'' JNull
              = JInt (entry_version (a_db a) date_str tracker_id + 1))
     \<and> entry_version (a_db a') date_str tracker_id
         = entry_version (a_db a) date_str tracker_id + 1"

definition item_conflicted :: "acc \<Rightarrow> acc \<Rightarrow> bool" where
  "item_conflicted a a' \<longleftrightarrow>
     a_db a' = a_db a
     \<and> a_applied_config a' = a_applied_config a
     \<and> a_applied_days a' = a_applied_days a
     \<and> a_conflicts a' \<noteq> []
     \<and> butlast (a_conflicts a') = a_conflicts a"

text \<open>The local variables of the handler when its first loop starts on a database.\<close>

definition acc0 :: "db \<Rightarrow> acc" where
  "acc0 s = \<lparr>a_db = s, a_conflicts = [], a_applied_config = [], a_applied_days = []\<rparr>"

text \<open>
  An item reported as applied is in the store: the row of a tracker reported with version
  \<open>v\<close> exists with a version of at least \<open>v\<close> (a soft-delete of an id that has no row
  is reported with version 1 and stores nothing); the row of an entry reported with
  version \<open>v\<close> exists with a version of at least \<open>v\<close>.
\<close>

definition tracker_durable :: "db \<Rightarrow> dict \<Rightarrow> bool" where
  "tracker_durable s x =
     (case dict_get x ''id'' JNull of
        JStr tracker_id \<Rightarrow>
          (case dict_get x ''_version'' JNull of
             JInt v \<Rightarrow>
               (case map_of (trackers s) tracker_id of
                  None \<Rightarrow> truthy (dict_get x ''_deleted'' (JBool False)) \<and> v = 1
                | Some row \<Rightarrow> v \<le> t_version row)
           | _ \<Rightarrow> False)
      | _ \<Rightarrow> False)"

definition entry_durable :: "db \<Rightarrow> string \<Rightarrow> string \<Rightarrow> dict \<Rightarrow> bool" where
  "entry_durable s date_str tracker_id out =
     (case dict_get out ''_version'' JNull of
        JInt v \<Rightarrow>
          (case map_of (entries s) (date_str, tracker_id) of
             None \<Rightarrow> False
           | Some row \<Rightarrow> v \<le> e_version row)
      | _ \<Rightarrow> False)"

text \<open>
  How a table may change: a row that is there stays, with a version that is not smaller;
  a row that is new has a version of at least 1.
\<close>

definition grows :: "('k \<times> 'r) list \<Rightarrow> ('k \<times> 'r) list \<Rightarrow> ('r \<Rightarrow> int) \<Rightarrow> bool" where
  "grows tab tab' ver \<longleftrightarrow>
     (\<forall>k. case map_of tab k of
            None \<Rightarrow> (case map_of tab' k of None \<Rightarrow> True | Some r' \<Rightarrow> 1 \<le> ver r')
          | Some r \<Rightarrow> (case map_of tab' k of None \<Rightarrow> False | Some r' \<Rightarrow> ver r \<le> ver r'))"

text \<open>What the two loops of \<^verbatim>\<open>sync_update\<close> keep true of their local variables.\<close>

definition days_durable :: "acc \<Rightarrow> bool" where
  "days_durable a \<longleftrightarrow>
     (\<forall>d t out. days_get (a_applied_days a) d t = Some out \<longrightarrow> entry_durable (a_db a) d t out)"

definition push_inv :: "acc \<Rightarrow> bool" where
  "push_inv a \<longleftrightarrow> list_all (tracker_durable (a_db a)) (a_applied_config a) \<and> days_durable a"

text \<open>
  A key of an extension field as the spec names it: not one of the reserved
  \<^verbatim>\<open>id\<close>, \<^verbatim>\<open>name\<close>, \<^verbatim>\<open>category\<close>, \<^verbatim>\<open>type\<close> and not starting with an underscore.
\<close>

definition extension_key :: "string \<Rightarrow> bool" where
  "extension_key k \<longleftrightarrow>
     k \<notin> set [''id'', ''name'', ''category'', ''type'']
     \<and> (case k of [] \<Rightarrow> True | c # _ \<Rightarrow> c \<noteq> CHR ''_'')"

section \<open>Worked scenarios\<close>

text \<open>
  Client A creates tracker \<open>t1\<close> with two extension fields; client B, who never saw
  it, pushes its own \<open>t1\<close> with base version 0 and then resolves in its own favour.
\<close>

definition ex_item_A :: dict where
  "ex_item_A =
     [(''id'', JStr ''t1''), (''name'', JStr ''Run''), (''goal'', JInt 10),
      (''unit'', JStr ''km'')]"

definition ex_item_B :: dict where
  "ex_item_B = [(''id'', JStr ''t1''), (''name'', JStr ''Walk''), (''_baseVersion'', JInt 0)]"

definition ex_push_A :: sync_payload where
  "ex_push_A = \<lparr>clientId = ''A'', config = [ex_item_A], days = [], lastSyncTime = None\<rparr>"

definition ex_push_B :: sync_payload where
  "ex_push_B = \<lparr>clientId = ''B'', config = [ex_item_B], days = [], lastSyncTime = None\<rparr>"

definition ex_db_A :: db where
  "ex_db_A = db_after (sync_update ''2024-01-01T10:00:00Z'' ex_push_A init_database) init_database"

definition ex_db_B :: db where
  "ex_db_B = db_after (sync_update ''2024-01-02T10:00:00Z'' ex_push_B ex_db_A) ex_db_A"

definition ex_db_R :: db where
  "ex_db_R =
     db_after (resolve_conflict ''2024-01-03T10:00:00Z'' ''tracker'' ''t1'' ''client'' ''B''
                 (Some ex_item_B) ex_db_B) ex_db_B"

text \<open>Client B sends the same resolution a second time.\<close>

definition ex_db_RR :: db where
  "ex_db_RR =
     db_after (resolve_conflict ''2024-01-03T10:00:05Z'' ''tracker'' ''t1'' ''client'' ''B''
                 (Some ex_item_B) ex_db_R) ex_db_R"

text \<open>A push that deletes a tracker nobody created, and a later push that creates it.\<close>

definition ex_item_del :: dict where
  "ex_item_del = [(''id'', JStr ''t9''), (''_deleted'', JBool True)]"

definition ex_push_del :: sync_payload where
  "ex_push_del = \<lparr>clientId = ''A'', config = [ex_item_del], days = [], lastSyncTime = None\<rparr>"

definition ex_item_new :: dict where
  "ex_item_new = [(''id'', JStr ''t9''), (''name'', JStr ''Swim'')]"

definition ex_push_new :: sync_payload where
  "ex_push_new = \<lparr>clientId = ''B'', config = [ex_item_new], days = [], lastSyncTime = None\<rparr>"

definition ex_db_del :: db where
  "ex_db_del =
     db_after (sync_update ''2024-02-01T08:00:00Z'' ex_push_del init_database) init_database"

definition ex_db_new :: db where
  "ex_db_new = db_after (sync_update ''2024-02-02T08:00:00Z'' ex_push_new ex_db_del) ex_db_del"

text \<open>
  A database for the delta snapshot: a live tracker and a deleted one modified after
  \<open>''2024-03-01''\<close>, a live one modified before, and a live one without a timestamp;
  entries inside and outside the window and before the cutoff.
\<close>

definition ex_tracker :: "string \<Rightarrow> string option \<Rightarrow> int \<Rightarrow> tracker_row" where
  "ex_tracker nm at del =
     \<lparr>t_name = JStr nm, t_category = JStr [], t_type = JStr ''simple'',
      t_meta_json = Some [], t_version = 2, t_last_modified_by = Some ''A'',
      t_last_modified_at = at, t_deleted = del\<rparr>"

definition ex_entry :: "int \<Rightarrow> string option \<Rightarrow> entry_row" where
  "ex_entry v at =
     \<lparr>e_value = JInt v, e_completed = Some 1, e_version = 1,
      e_last_modified_by = Some ''A'', e_last_modified_at = at\<rparr>"

definition ex_db_delta :: db where
  "ex_db_delta =
     \<lparr>clients = [], last_server_sync_time = Some ''2024-03-05T09:00:00Z'',
      trackers =
        [(''t1'', ex_tracker ''Run'' (Some ''2024-03-05T09:00:00Z'') 0),
         (''t2'', ex_tracker ''Walk'' (Some ''2024-03-04T09:00:00Z'') 1),
         (''t3'', ex_tracker ''Swim'' (Some ''2024-02-01T09:00:00Z'') 0),
         (''t4'', ex_tracker ''Read'' None 0)],
      entries =
        [((''2024-03-05'', ''t1''), ex_entry 5 (Some ''2024-03-05T09:00:00Z'')),
         ((''2024-02-01'', ''t1''), ex_entry 6 (Some ''2024-03-05T09:00:00Z'')),
         ((''2024-03-04'', ''t3''), ex_entry 7 (Some ''2024-02-01T09:00:00Z''))],
      sync_conflicts = []\<rparr>"

text \<open>A push of a new tracker with a negative base version.\<close>

definition ex_item_neg :: dict where
  "ex_item_neg = [(''id'', JStr ''t1''), (''name'', JStr ''Run''), (''_baseVersion'', JInt (- 1))]"

definition ex_push_neg :: sync_payload where
  "ex_push_neg = \<lparr>clientId = ''A'', config = [ex_item_neg], days = [], lastSyncTime = None\<rparr>"

definition ex_db_neg :: db where
  "ex_db_neg =
     db_after (sync_update ''2024-01-01T10:00:00Z'' ex_push_neg init_database) init_database"

text \<open>The row of \<open>t1\<close> after client A's push, and an entry item without a base version.\<close>

definition ex_row_A :: tracker_row where
  "ex_row_A =
     \<lparr>t_name = JStr ''Run'', t_category = JStr [], t_type = JStr ''simple'',
      t_meta_json = Some [(''goal'', JInt 10), (''unit'', JStr ''km'')], t_version = 1,
      t_last_modified_by = Some ''A'', t_last_modified_at = Some ''2024-01-01T10:00:00Z'',
      t_deleted = 0\<rparr>"

definition ex_data_9 :: dict where
  "ex_data_9 = [(''value'', JInt 9)]"

text \<open>
  A push of client B on the database after A's: \<open>t1\<close> with the stale base version 0,
  four new trackers and one entry.
\<close>

definition ex_push_mixed :: sync_payload where
  "ex_push_mixed =
     \<lparr>clientId = ''B'',
      config =
        [ex_item_B,
         [(''id'', JStr ''t2''), (''name'', JStr ''Swim'')],
         [(''id'', JStr ''t3''), (''name'', JStr ''Read''), (''pages'', JInt 20)],
         [(''id'', JStr ''t4''), (''name'', JStr ''Sleep'')],
         [(''id'', JStr ''t5''), (''name'', JStr ''Cook'')]],
      days = [(''2024-01-02'', [(''t1'', [(''value'', JInt 3)])])],
      lastSyncTime = None\<rparr>"

definition ex_db_mixed :: db where
  "ex_db_mixed = db_after (sync_update ''2024-01-02T10:00:00Z'' ex_push_mixed ex_db_A) ex_db_A"

section \<open>Lemmas about the tables and the handlers\<close>

subsection \<open>Dicts\<close>

lemma dict_get_update [simp]:
  "dict_get (AList.update k v d) k' dflt = (if k' = k then v else dict_get d k' dflt)"
  by (simp add: dict_get_def update_conv')

lemma dict_get_applied_item:
  "dict_get (applied_item c n v item) k dflt =
     (if k = ''_lastModifiedAt'' then JStr n
      else if k = ''_lastModifiedBy'' then JStr c
      else if k = ''_version'' then JInt v
      else dict_get item k dflt)"
  by (simp add: applied_item_def)

subsection \<open>Tables\<close>

lemma map_of_upsert: "map_of (upsert k r tab) = (map_of tab)(k \<mapsto> r)"
  by (simp add: upsert_def update_conv')

lemma map_of_insert_or_replace: "map_of (insert_or_replace k r tab) = (map_of tab)(k \<mapsto> r)"
  by (rule ext) (auto simp: insert_or_replace_def map_add_def delete_conv' split: option.splits)

lemma map_of_update_where:
  "map_of (update_where k f tab) = (\<lambda>k'. if k' = k then map_option f (map_of tab k) else map_of tab k')"
  by (induction tab) (auto simp: update_where_def fun_eq_iff)

lemma keys_update_where: "map fst (update_where k f tab) = map fst tab"
  by (induction tab) (auto simp: update_where_def)

lemma distinct_upsert: "distinct (map fst tab) \<Longrightarrow> distinct (map fst (upsert k r tab))"
  by (simp add: upsert_def distinct_update)

lemma distinct_insert_or_replace:
  "distinct (map fst tab) \<Longrightarrow> distinct (map fst (insert_or_replace k r tab))"
  by (simp add: insert_or_replace_def delete_keys distinct_removeAll)

subsection \<open>The ledger\<close>

lemma tracker_apply_ledger:
  "tracker_apply c n item tid sv a = Inr a' \<Longrightarrow>
     sync_conflicts (a_db a') = sync_conflicts (a_db a)
     \<and> last_server_sync_time (a_db a') = last_server_sync_time (a_db a)
     \<and> clients (a_db a') = clients (a_db a)
     \<and> entries (a_db a') = entries (a_db a)"
  by (auto simp: tracker_apply_def Let_def split: if_splits)

lemma tracker_item_ledger:
  "tracker_item c n item a = Inr a' \<Longrightarrow>
     sync_conflicts (a_db a') = sync_conflicts (a_db a)
     \<and> last_server_sync_time (a_db a') = last_server_sync_time (a_db a)
     \<and> clients (a_db a') = clients (a_db a)
     \<and> entries (a_db a') = entries (a_db a)"
  by (auto simp: tracker_item_def tracker_item_str_def tracker_conflict_def Let_def
      dest: tracker_apply_ledger split: json.splits option.splits sum.splits if_splits)

lemma process_config_ledger:
  "process_config c n items a = Inr a' \<Longrightarrow>
     sync_conflicts (a_db a') = sync_conflicts (a_db a)
     \<and> last_server_sync_time (a_db a') = last_server_sync_time (a_db a)
     \<and> clients (a_db a') = clients (a_db a)
     \<and> entries (a_db a') = entries (a_db a)"
proof (induction items arbitrary: a)
  case Nil
  then show ?case by simp
next
  case (Cons item items)
  then obtain a1 where 1: "tracker_item c n item a = Inr a1"
    and 2: "process_config c n items a1 = Inr a'"
    by (auto split: sum.splits)
  from Cons.IH [OF 2] tracker_item_ledger [OF 1] show ?case by simp
qed

lemma entry_apply_ledger:
  "entry_apply c n d tid data sv a = Inr a' \<Longrightarrow>
     sync_conflicts (a_db a') = sync_conflicts (a_db a)
     \<and> last_server_sync_time (a_db a') = last_server_sync_time (a_db a)
     \<and> clients (a_db a') = clients (a_db a)
     \<and> trackers (a_db a') = trackers (a_db a)"
  by (auto simp: entry_apply_def Let_def split: if_splits)

lemma entry_item_ledger:
  "entry_item c n d tid data a = Inr a' \<Longrightarrow>
     sync_conflicts (a_db a') = sync_conflicts (a_db a)
     \<and> last_server_sync_time (a_db a') = last_server_sync_time (a_db a)
     \<and> clients (a_db a') = clients (a_db a)
     \<and> trackers (a_db a') = trackers (a_db a)"
  by (auto simp: entry_item_def entry_conflict_def Let_def
      dest: entry_apply_ledger split: option.splits sum.splits if_splits)

lemma process_trackers_map_ledger:
  "process_trackers_map c n d m a = Inr a' \<Longrightarrow>
     sync_conflicts (a_db a') = sync_conflicts (a_db a)
     \<and> last_server_sync_time (a_db a') = last_server_sync_time (a_db a)
     \<and> clients (a_db a') = clients (a_db a)
     \<and> trackers (a_db a') = trackers (a_db a)"
proof (induction m arbitrary: a)
  case Nil
  then show ?case by simp
next
  case (Cons x m)
  obtain tid data where x: "x = (tid, data)" by (cases x)
  with Cons.prems obtain a1 where 1: "entry_item c n d tid data a = Inr a1"
    and 2: "process_trackers_map c n d m a1 = Inr a'"
    by (auto split: sum.splits)
  from Cons.IH [OF 2] entry_item_ledger [OF 1] show ?case by simp
qed

lemma process_days_ledger:
  "process_days c n ds a = Inr a' \<Longrightarrow>
     sync_conflicts (a_db a') = sync_conflicts (a_db a)
     \<and> last_server_sync_time (a_db a') = last_server_sync_time (a_db a)
     \<and> clients (a_db a') = clients (a_db a)
     \<and> trackers (a_db a') = trackers (a_db a)"
proof (induction ds arbitrary: a)
  case Nil
  then show ?case by simp
next
  case (Cons x ds)
  obtain d m where x: "x = (d, m)" by (cases x)
  define a0 where "a0 = (if d \<notin> fst ` set (a_applied_days a)
                then a\<lparr>a_applied_days := AList.update d [] (a_applied_days a)\<rparr> else a)"
  have db0: "a_db a0 = a_db a" by (simp add: a0_def)
  from Cons.prems x obtain a1 where 1: "process_trackers_map c n d m a0 = Inr a1"
    and 2: "process_days c n ds a1 = Inr a'"
    by (auto simp: Let_def a0_def split: sum.splits)
  from Cons.IH [OF 2] process_trackers_map_ledger [OF 1] db0 show ?case by simp
qed

lemma sync_update_ledger:
  "sync_update n p s = Inr (r, s') \<Longrightarrow> sync_conflicts s' = sync_conflicts s"
  by (auto simp: sync_update_def Let_def split: sum.splits if_splits
      dest!: process_config_ledger process_days_ledger)

subsection \<open>Reachability of the scenario\<close>

lemma reachable_init: "reachable init_database"
  by (simp add: reachable_def)

lemma reachable_step: "reachable s \<Longrightarrow> commits s s' \<Longrightarrow> reachable s'"
  unfolding reachable_def by (rule rtranclp.rtrancl_into_rtrancl)

lemma reachable_after_update: "reachable s \<Longrightarrow> reachable (db_after (sync_update n p s) s)"
  by (cases "sync_update n p s")
    (auto simp: db_after_def intro: reachable_step commit_update)

lemma reachable_after_resolve:
  "reachable s \<Longrightarrow> reachable (db_after (resolve_conflict n et ei r c cd s) s)"
  by (cases "resolve_conflict n et ei r c cd s")
    (auto simp: db_after_def intro: reachable_step commit_resolve)

lemma reachable_ex_db_A: "reachable ex_db_A"
  unfolding ex_db_A_def by (rule reachable_after_update [OF reachable_init])

lemma reachable_ex_db_B: "reachable ex_db_B"
  unfolding ex_db_B_def by (rule reachable_after_update [OF reachable_ex_db_A])

lemma reachable_ex_db_R: "reachable ex_db_R"
  unfolding ex_db_R_def by (rule reachable_after_resolve [OF reachable_ex_db_B])

section \<open>The conflict ledger holds resolved rows only\<close>

lemma force_apply_ledger:
  "force_apply n et ei c cd s = Inr s' \<Longrightarrow> sync_conflicts s' = sync_conflicts s"
  by (auto simp: force_apply_def resolve_tracker_def resolve_entry_def Let_def
      split: if_splits list.splits)

lemma resolve_conflict_ledger:
  "resolve_conflict n et ei r c cd s = Inr (resp, s') \<Longrightarrow>
     \<exists>row. sync_conflicts s' = sync_conflicts s @ [row] \<and> c_resolved_at row = Some n"
  by (auto simp: resolve_conflict_def log_resolution_def
      split: option.splits sum.splits if_splits dest!: force_apply_ledger)

lemma commits_all_resolved: "commits s s' \<Longrightarrow> all_resolved s \<Longrightarrow> all_resolved s'"
proof (induction rule: commits.induct)
  case (commit_register s now client_id client_name)
  then show ?case by (simp add: all_resolved_def register_client_def)
next
  case (commit_update now payload s resp s')
  then show ?case by (simp add: all_resolved_def sync_update_ledger)
next
  case (commit_resolve now entity_type entity_id resolution client_id client_data s resp s')
  from resolve_conflict_ledger [OF commit_resolve(1)] commit_resolve(2)
  show ?case by (auto simp: all_resolved_def)
qed

lemma reachable_all_resolved: "reachable s \<Longrightarrow> all_resolved s"
  unfolding reachable_def
proof (induction rule: rtranclp_induct)
  case base
  show ?case by (simp add: all_resolved_def init_database_def)
next
  case (step s1 s2)
  from step.hyps(2) step.IH show ?case by (rule commits_all_resolved)
qed

lemma all_resolved_unresolved_empty: "all_resolved s \<Longrightarrow> get_unresolved_conflicts c s = []"
  by (auto simp: all_resolved_def get_unresolved_conflicts_def list_all_iff filter_empty_conv)

lemma ex_db_R_ledger: "sync_conflicts ex_db_R \<noteq> []"
  by code_simp

text \<open>
  Claim C9. The only statement that inserts into \<^verbatim>\<open>sync_conflicts\<close> is the one of
  \<^verbatim>\<open>resolve_conflict\<close>, and it stamps \<^verbatim>\<open>resolved_at\<close> on the row it inserts. So in every
  database the server can reach from a fresh one, every row of the ledger has a
  \<^verbatim>\<open>resolved_at\<close>, and \<^verbatim>\<open>get_unresolved_conflicts\<close> returns the empty list for every
  client.
\<close>

theorem ledger_rows_always_resolved:
  "reachable s \<Longrightarrow> all_resolved s \<and> get_unresolved_conflicts client_id s = []"
  by (simp add: reachable_all_resolved all_resolved_unresolved_empty)

theorem ledger_rows_always_resolved_witness:
  "reachable ex_db_R \<and> sync_conflicts ex_db_R \<noteq> [] \<and> all_resolved ex_db_R
   \<and> get_unresolved_conflicts ''B'' ex_db_R = []"
  using ledger_rows_always_resolved [OF reachable_ex_db_R, of "''B''"] ex_db_R_ledger
    reachable_ex_db_R by simp

section \<open>Resolving twice\<close>

lemma resolve_tracker_succeeds_again:
  "resolve_tracker n1 ei c cd s = Inr s1 \<Longrightarrow> \<exists>s2. resolve_tracker n2 ei c cd s1 = Inr s2"
  by (auto simp: resolve_tracker_def Let_def split: if_splits)

lemma resolve_tracker_version:
  "resolve_tracker n ei c cd s = Inr s1 \<Longrightarrow>
     tracker_version s1 ei = tracker_version s ei + 1 \<and> entries s1 = entries s
     \<and> sync_conflicts s1 = sync_conflicts s"
  by (auto simp: resolve_tracker_def Let_def tracker_version_def map_of_insert_or_replace
      split: if_splits)

lemma resolve_entry_succeeds_again:
  "resolve_entry n1 ei c cd s = Inr s1 \<Longrightarrow> \<exists>s2. resolve_entry n2 ei c cd s1 = Inr s2"
  by (auto simp: resolve_entry_def Let_def split: if_splits list.splits)

lemma resolve_entry_version:
  "resolve_entry n ei c cd s = Inr s1 \<Longrightarrow>
     \<exists>d t. split_on CHR ''|'' ei = [d, t]
       \<and> entry_version s1 d t = entry_version s d t + 1 \<and> trackers s1 = trackers s
       \<and> sync_conflicts s1 = sync_conflicts s"
  by (auto simp: resolve_entry_def Let_def entry_version_def map_of_insert_or_replace
      split: if_splits list.splits)

lemma tracker_version_log_resolution [simp]:
  "tracker_version (log_resolution n et ei r c cd s) tid = tracker_version s tid"
  by (simp add: tracker_version_def log_resolution_def)

lemma entry_version_log_resolution [simp]:
  "entry_version (log_resolution n et ei r c cd s) d t = entry_version s d t"
  by (simp add: entry_version_def log_resolution_def)

lemma length_ledger_log_resolution [simp]:
  "length (sync_conflicts (log_resolution n et ei r c cd s)) = Suc (length (sync_conflicts s))"
  by (simp add: log_resolution_def)

lemma resolve_conflict_client:
  "cd \<noteq> [] \<Longrightarrow>
   resolve_conflict n et ei ''client'' c (Some cd) s =
     (case force_apply n et ei c cd s of
        Inl e \<Rightarrow> Inl e
      | Inr s1 \<Rightarrow>
          Inr ([(''status'', JStr ''ok''), (''resolution'', JStr ''client''),
                (''entityId'', JStr ei)],
               log_resolution n et ei ''client'' c (Some cd) s1))"
  by (simp add: resolve_conflict_def)


text \<open>
  Claim C5, as the code has it. \<^verbatim>\<open>resolve_conflict\<close> never reads the ledger: a call with
  resolution \<^verbatim>\<open>client\<close> and a dict of client data that is not empty force-applies the
  data whenever it is called. When the first call went through, a second call with the
  same arguments goes through as well; each of the two sets the stored version to the
  version before it plus 1, so the version after both is the version before them plus 2,
  and each appends a resolved row to the ledger.
\<close>

theorem resolve_conflict_twice:
  assumes cd: "cd \<noteq> []"
    and first: "resolve_conflict n1 et ei ''client'' c (Some cd) s = Inr (r1, s1)"
  shows "\<exists>r2 s2. resolve_conflict n2 et ei ''client'' c (Some cd) s1 = Inr (r2, s2)
     \<and> (et = ''tracker'' \<longrightarrow>
          tracker_version s1 ei = tracker_version s ei + 1
          \<and> tracker_version s2 ei = tracker_version s ei + 2)
     \<and> (et = ''entry'' \<longrightarrow>
          (\<exists>d t. split_on CHR ''|'' ei = [d, t]
             \<and> entry_version s1 d t = entry_version s d t + 1
             \<and> entry_version s2 d t = entry_version s d t + 2))
     \<and> length (sync_conflicts s2) = length (sync_conflicts s) + 2"
proof -
  from first cd obtain u1 where u1: "force_apply n1 et ei c cd s = Inr u1"
    and s1: "s1 = log_resolution n1 et ei ''client'' c (Some cd) u1"
    by (auto simp: resolve_conflict_client split: sum.splits)
  have led1: "sync_conflicts u1 = sync_conflicts s"
    using u1 by (rule force_apply_ledger)
  show ?thesis
  proof (cases "et = ''tracker''")
    case True
    with u1 have a1: "resolve_tracker n1 ei c cd s = Inr u1" by (simp add: force_apply_def)
    then have bind: "bindable (dict_get cd ''name'' JNull) \<and> bindable (dict_get cd ''category'' (JStr []))
        \<and> bindable (dict_get cd ''type'' (JStr ''simple''))"
      by (auto simp: resolve_tracker_def Let_def split: if_splits)
    then obtain u2 where a2: "resolve_tracker n2 ei c cd s1 = Inr u2"
      by (auto simp: resolve_tracker_def Let_def)
    have v1: "tracker_version s1 ei = tracker_version s ei + 1"
      using resolve_tracker_version [OF a1] by (simp add: s1)
    have v2: "tracker_version u2 ei = tracker_version s ei + 2"
      using resolve_tracker_version [OF a2] v1 by simp
    have led2: "sync_conflicts u2 = sync_conflicts s1"
      using resolve_tracker_version [OF a2] by simp
    have "resolve_conflict n2 et ei ''client'' c (Some cd) s1 =
        Inr ([(''status'', JStr ''ok''), (''resolution'', JStr ''client''), (''entityId'', JStr ei)],
             log_resolution n2 et ei ''client'' c (Some cd) u2)"
      using cd a2 True by (simp add: resolve_conflict_client force_apply_def)
    moreover have "length (sync_conflicts (log_resolution n2 et ei ''client'' c (Some cd) u2))
        = length (sync_conflicts s) + 2"
      using led1 led2 by (simp add: s1)
    ultimately show ?thesis using True v1 v2 by simp
  next
    case nt: False
    show ?thesis
    proof (cases "et = ''entry''")
      case True
      with u1 nt have a1: "resolve_entry n1 ei c cd s = Inr u1" by (simp add: force_apply_def)
      from resolve_entry_version [OF a1] obtain d t where
        sp: "split_on CHR ''|'' ei = [d, t]" and
        v1u: "entry_version u1 d t = entry_version s d t + 1" by blast
      from a1 sp have bind: "bindable (dict_get cd ''value'' JNull)"
        by (auto simp: resolve_entry_def Let_def split: if_splits)
      with sp obtain u2 where a2: "resolve_entry n2 ei c cd s1 = Inr u2"
        by (auto simp: resolve_entry_def Let_def)
      from resolve_entry_version [OF a2] sp
      have v2u: "entry_version u2 d t = entry_version s1 d t + 1"
        and led2: "sync_conflicts u2 = sync_conflicts s1" by auto
      have v1: "entry_version s1 d t = entry_version s d t + 1"
        using v1u by (simp add: s1)
      have "resolve_conflict n2 et ei ''client'' c (Some cd) s1 =
          Inr ([(''status'', JStr ''ok''), (''resolution'', JStr ''client''), (''entityId'', JStr ei)],
               log_resolution n2 et ei ''client'' c (Some cd) u2)"
        using cd a2 True nt by (simp add: resolve_conflict_client force_apply_def)
      moreover have "length (sync_conflicts (log_resolution n2 et ei ''client'' c (Some cd) u2))
          = length (sync_conflicts s) + 2"
        using led1 led2 by (simp add: s1)
      ultimately show ?thesis using True nt v1 v2u sp by simp
    next
      case False
      with nt u1 have "u1 = s" by (simp add: force_apply_def)
      have "resolve_conflict n2 et ei ''client'' c (Some cd) s1 =
          Inr ([(''status'', JStr ''ok''), (''resolution'', JStr ''client''), (''entityId'', JStr ei)],
               log_resolution n2 et ei ''client'' c (Some cd) s1)"
        using cd nt False by (simp add: resolve_conflict_client force_apply_def)
      moreover have "length (sync_conflicts (log_resolution n2 et ei ''client'' c (Some cd) s1))
          = length (sync_conflicts s) + 2"
        using led1 by (simp add: s1)
      ultimately show ?thesis using nt False by simp
    qed
  qed
qed

lemma ex_resolve_first:
  "resolve_conflict ''2024-01-03T10:00:00Z'' ''tracker'' ''t1'' ''client'' ''B'' (Some ex_item_B) ex_db_B
     = Inr ([(''status'', JStr ''ok''), (''resolution'', JStr ''client''), (''entityId'', JStr ''t1'')],
            ex_db_R)"
  by code_simp

lemma ex_resolve_second:
  "resolve_conflict ''2024-01-03T10:00:05Z'' ''tracker'' ''t1'' ''client'' ''B'' (Some ex_item_B) ex_db_R
     = Inr ([(''status'', JStr ''ok''), (''resolution'', JStr ''client''), (''entityId'', JStr ''t1'')],
            ex_db_RR)"
  by code_simp

lemma ex_item_B_not_empty: "ex_item_B \<noteq> []"
  by (simp add: ex_item_B_def)

theorem resolve_conflict_twice_witness:
  "ex_item_B \<noteq> []
   \<and> resolve_conflict ''2024-01-03T10:00:00Z'' ''tracker'' ''t1'' ''client'' ''B'' (Some ex_item_B) ex_db_B
       = Inr ([(''status'', JStr ''ok''), (''resolution'', JStr ''client''), (''entityId'', JStr ''t1'')],
              ex_db_R)
   \<and> resolve_conflict ''2024-01-03T10:00:05Z'' ''tracker'' ''t1'' ''client'' ''B'' (Some ex_item_B) ex_db_R
       = Inr ([(''status'', JStr ''ok''), (''resolution'', JStr ''client''), (''entityId'', JStr ''t1'')],
              ex_db_RR)
   \<and> tracker_version ex_db_R ''t1'' = tracker_version ex_db_B ''t1'' + 1
   \<and> tracker_version ex_db_RR ''t1'' = tracker_version ex_db_B ''t1'' + 2
   \<and> length (sync_conflicts ex_db_RR) = length (sync_conflicts ex_db_B) + 2"
  using resolve_conflict_twice [OF ex_item_B_not_empty ex_resolve_first, of "''2024-01-03T10:00:05Z''"]
    ex_resolve_first ex_resolve_second ex_item_B_not_empty
  by auto

text \<open>
  Claim C5, as the spec states it, fails: after the conflict on \<open>t1\<close> (stored version 1)
  client B resolves with resolution \<^verbatim>\<open>client\<close> and the version becomes 2; B sends the same
  resolution again, the call answers \<^verbatim>\<open>ok\<close> and the version becomes 3.
\<close>

theorem resolve_twice_counterexample:
  "tracker_version ex_db_B ''t1'' = 1
   \<and> tracker_version ex_db_R ''t1'' = 2
   \<and> response_of (resolve_conflict ''2024-01-03T10:00:05Z'' ''tracker'' ''t1'' ''client'' ''B''
                 (Some ex_item_B) ex_db_R)
       = Some [(''status'', JStr ''ok''), (''resolution'', JStr ''client''), (''entityId'', JStr ''t1'')]
   \<and> tracker_version ex_db_RR ''t1'' = 3"
  by code_simp

section \<open>Conflicts and the ledger\<close>

text \<open>
  Claim C2 does not hold of the code. \<^verbatim>\<open>sync_update\<close> reports a conflict in its response
  and inserts nothing into \<^verbatim>\<open>sync_conflicts\<close>: after client B's conflicting push of
  \<open>t1\<close> the response lists the conflict, the ledger is empty and
  \<^verbatim>\<open>get_unresolved_conflicts\<close> returns nothing for B.
\<close>

theorem conflict_not_recorded_in_ledger:
  "map_option (map entityId \<circ> conflicts)
       (response_of (sync_update ''2024-01-02T10:00:00Z'' ex_push_B ex_db_A)) = Some [''t1'']
   \<and> sync_conflicts ex_db_B = []
   \<and> get_unresolved_conflicts ''B'' ex_db_B = []"
  by code_simp

section \<open>Deleting a tracker that is not there\<close>

text \<open>
  Claim C4 does not hold of the code at a soft-delete of an id that has no row. The
  response reports the item as applied with \<^verbatim>\<open>_version\<close> 1, the UPDATE matches no row and
  the stored version stays 0 (no row); the push that later creates the tracker is
  reported with \<^verbatim>\<open>_version\<close> 1 again.
\<close>

theorem soft_delete_without_row_reports_version:
  "map_option appliedConfig
       (response_of (sync_update ''2024-02-01T08:00:00Z'' ex_push_del init_database))
     = Some [[(''id'', JStr ''t9''), (''_deleted'', JBool True), (''_version'', JInt 1),
              (''_lastModifiedBy'', JStr ''A''),
              (''_lastModifiedAt'', JStr ''2024-02-01T08:00:00Z'')]]
   \<and> map_of (trackers ex_db_del) ''t9'' = None
   \<and> tracker_version ex_db_del ''t9'' = 0
   \<and> map_option (map (\<lambda>x. dict_get x ''_version'' JNull) \<circ> appliedConfig)
        (response_of (sync_update ''2024-02-02T08:00:00Z'' ex_push_new ex_db_del)) = Some [JInt 1]
   \<and> tracker_version ex_db_new ''t9'' = 1"
  by code_simp

section \<open>The delta snapshot\<close>

lemma update_where_absent: "k \<notin> fst ` set tab \<Longrightarrow> update_where k f tab = tab"
  by (induction tab) (auto simp: update_where_def)

lemma delta_trackers_eq:
  "delta_trackers rows (cfg, del) =
     (cfg @ map (\<lambda>kr. tracker_out (fst kr) (snd kr)) (filter (\<lambda>kr. t_deleted (snd kr) = 0) rows),
      del @ map fst (filter (\<lambda>kr. t_deleted (snd kr) \<noteq> 0) rows))"
  by (induction rows arbitrary: cfg del) auto

lemma snap_config_delta:
  "snap_config (sync_delta now d7 since cid s) =
     map (\<lambda>kr. tracker_out (fst kr) (snd kr))
       (filter (\<lambda>kr. modified_since since (t_last_modified_at (snd kr)) \<and> t_deleted (snd kr) = 0)
          (trackers s))"
  by (simp add: sync_delta_def Let_def delta_trackers_eq conj_commute)

lemma snap_deleted_delta:
  "snap_deletedTrackers (sync_delta now d7 since cid s) =
     map fst
       (filter (\<lambda>kr. modified_since since (t_last_modified_at (snd kr)) \<and> t_deleted (snd kr) \<noteq> 0)
          (trackers s))"
  by (simp add: sync_delta_def Let_def delta_trackers_eq conj_commute)

lemma key_in_filter_distinct:
  "distinct (map fst rows) \<Longrightarrow>
   k \<in> fst ` set (filter P rows) \<longleftrightarrow>
     (case map_of rows k of None \<Rightarrow> False | Some r \<Rightarrow> P (k, r))"
proof (induction rows)
  case Nil
  then show ?case by simp
next
  case (Cons x rows)
  obtain k0 r0 where x: "x = (k0, r0)" by (cases x)
  show ?case
  proof (cases "k = k0")
    case True
    with Cons.prems x have "k \<notin> fst ` set rows" by auto
    then have "k \<notin> fst ` set (filter P rows)" by auto
    with True x show ?thesis by auto
  next
    case False
    with Cons x show ?thesis by auto
  qed
qed

lemma mem_deleted_delta:
  assumes "distinct (map fst (trackers s))"
  shows "tid \<in> set (snap_deletedTrackers (sync_delta now d7 since cid s)) \<longleftrightarrow>
     (case map_of (trackers s) tid of
        None \<Rightarrow> False
      | Some row \<Rightarrow> modified_since since (t_last_modified_at row) \<and> t_deleted row \<noteq> 0)"
  using key_in_filter_distinct [OF assms,
      of tid "\<lambda>kr. modified_since since (t_last_modified_at (snd kr)) \<and> t_deleted (snd kr) \<noteq> 0"]
  by (simp add: snap_deleted_delta split: option.splits)

lemma days_get_Nil [simp]: "days_get [] d t = None"
  by (simp add: days_get_def)

lemma days_get_days_set:
  "days_get (days_set d0 t0 out ds) d t =
     (if d = d0 \<and> t = t0 then Some out else days_get ds d t)"
  by (auto simp: days_get_def days_set_def update_conv' split: option.splits)

lemma days_get_new_date:
  "d0 \<notin> fst ` set ds \<Longrightarrow> days_get (AList.update d0 [] ds) d t = days_get ds d t"
proof -
  assume "d0 \<notin> fst ` set ds"
  then have "map_of ds d0 = None" by (simp add: map_of_eq_None_iff)
  then show ?thesis by (auto simp: days_get_def update_conv' split: option.splits)
qed

lemma days_get_days_of:
  "distinct (map fst rows) \<Longrightarrow>
   days_get (days_of rows ds) d t =
     (case map_of rows (d, t) of None \<Rightarrow> days_get ds d t | Some row \<Rightarrow> Some (entry_out row))"
proof (induction rows arbitrary: ds)
  case Nil
  then show ?case by simp
next
  case (Cons x rows)
  obtain d0 t0 r0 where x: "x = ((d0, t0), r0)" by (cases x) auto
  from Cons.prems x have notin: "map_of rows (d0, t0) = None" and dist: "distinct (map fst rows)"
    by (auto simp: map_of_eq_None_iff)
  show ?case
    using notin by (auto simp: x Let_def Cons.IH [OF dist] days_get_days_set days_get_new_date
        split: option.splits)
qed

lemma map_of_filter_distinct:
  "distinct (map fst rows) \<Longrightarrow>
   map_of (filter (\<lambda>kr. P (fst kr) (snd kr)) rows) k =
     (case map_of rows k of None \<Rightarrow> None | Some r \<Rightarrow> if P k r then Some r else None)"
  by (induction rows) (auto split: option.splits simp: map_of_eq_None_iff image_iff)

lemma distinct_map_fst_filter: "distinct (map fst rows) \<Longrightarrow> distinct (map fst (filter P rows))"
  by (simp add: distinct_map_filter)

lemma days_get_days_of_Nil:
  "distinct (map fst rows) \<Longrightarrow>
   days_get (days_of rows []) d t = map_option entry_out (map_of rows (d, t))"
  by (cases "map_of rows (d, t)") (simp_all add: days_get_days_of)

lemma snap_days_delta:
  assumes "distinct (map fst (entries s))"
  shows "days_get (snap_days (sync_delta now d7 since cid s)) d t =
     (case map_of (entries s) (d, t) of
        None \<Rightarrow> None
      | Some row \<Rightarrow>
          if modified_since since (e_last_modified_at row) \<and> d \<ge> d7
          then Some (entry_out row) else None)"
proof -
  let ?P = "\<lambda>k r. modified_since since (e_last_modified_at r) \<and> fst k \<ge> d7"
  let ?rows = "filter (\<lambda>kr. ?P (fst kr) (snd kr)) (entries s)"
  have "days_get (snap_days (sync_delta now d7 since cid s)) d t = days_get (days_of ?rows []) d t"
    by (simp add: sync_delta_def Let_def)
  also have "\<dots> = map_option entry_out (map_of ?rows (d, t))"
    using assms by (intro days_get_days_of_Nil distinct_map_fst_filter)
  also have "map_of ?rows (d, t) =
      (case map_of (entries s) (d, t) of
         None \<Rightarrow> None | Some r \<Rightarrow> if ?P (d, t) r then Some r else None)"
    using assms by (rule map_of_filter_distinct)
  finally show ?thesis
    by (cases "map_of (entries s) (d, t)") simp_all
qed

lemma modified_since_iff:
  "modified_since since x \<longleftrightarrow> x = None \<or> (\<exists>t. x = Some t \<and> since < t)"
  by (cases x) (simp_all add: modified_since_def)

text \<open>
  Claim C8. In a database whose tables respect their primary keys, \<^verbatim>\<open>sync_delta\<close>
  selects the trackers whose \<^verbatim>\<open>last_modified_at\<close> is NULL or strictly after \<open>since\<close>
  (\<open>modified_since\<close>). Of these, the rows whose \<^verbatim>\<open>deleted\<close> flag is 0 are returned as
  full records in \<^verbatim>\<open>config\<close> and nowhere else, the rows whose flag is set are returned
  as their ids in \<^verbatim>\<open>deletedTrackers\<close> and nowhere else; an id is in
  \<^verbatim>\<open>deletedTrackers\<close> exactly when its row is selected and deleted, so the id of a live
  tracker is never there. \<^verbatim>\<open>days[d][t]\<close> holds the entry of \<open>(d, t)\<close> exactly when the
  entry is modified since (or never stamped) and \<open>d\<close> is not before \<open>seven_days_ago\<close>.
\<close>

theorem delta_snapshot_correct:
  assumes "keys_unique s"
  shows "snap_config (sync_delta now d7 since cid s) =
           map (\<lambda>kr. tracker_out (fst kr) (snd kr))
             (filter (\<lambda>kr. modified_since since (t_last_modified_at (snd kr)) \<and> t_deleted (snd kr) = 0)
                (trackers s))
       \<and> snap_deletedTrackers (sync_delta now d7 since cid s) =
           map fst
             (filter (\<lambda>kr. modified_since since (t_last_modified_at (snd kr)) \<and> t_deleted (snd kr) \<noteq> 0)
                (trackers s))
       \<and> (tid \<in> set (snap_deletedTrackers (sync_delta now d7 since cid s)) \<longleftrightarrow>
           (case map_of (trackers s) tid of
              None \<Rightarrow> False
            | Some row \<Rightarrow> modified_since since (t_last_modified_at row) \<and> t_deleted row \<noteq> 0))
       \<and> (case map_of (trackers s) tid of
            None \<Rightarrow> True
          | Some row \<Rightarrow>
              t_deleted row = 0 \<longrightarrow>
                tid \<notin> set (snap_deletedTrackers (sync_delta now d7 since cid s)))
       \<and> days_get (snap_days (sync_delta now d7 since cid s)) d t =
           (case map_of (entries s) (d, t) of
              None \<Rightarrow> None
            | Some row \<Rightarrow>
                if modified_since since (e_last_modified_at row) \<and> d \<ge> d7
                then Some (entry_out row) else None)"
proof -
  from assms have t: "distinct (map fst (trackers s))" and e: "distinct (map fst (entries s))"
    by (simp_all add: keys_unique_def)
  show ?thesis
    using snap_config_delta [of now d7 since cid s] snap_deleted_delta [of now d7 since cid s]
      mem_deleted_delta [OF t, of tid now d7 since cid] snap_days_delta [OF e, of now d7 since cid d t]
    by (auto split: option.splits)
qed

lemma keys_unique_ex_db_delta: "keys_unique ex_db_delta"
  by (simp add: keys_unique_def ex_db_delta_def)

theorem delta_snapshot_correct_witness:
  "keys_unique ex_db_delta
   \<and> map (\<lambda>x. dict_get x ''id'' JNull)
        (snap_config (sync_delta ''2024-03-06T00:00:00Z'' ''2024-02-27'' ''2024-03-01'' ''B'' ex_db_delta))
       = [JStr ''t1'', JStr ''t4'']
   \<and> snap_deletedTrackers (sync_delta ''2024-03-06T00:00:00Z'' ''2024-02-27'' ''2024-03-01'' ''B'' ex_db_delta)
       = [''t2'']
   \<and> ''t1'' \<notin> set (snap_deletedTrackers
          (sync_delta ''2024-03-06T00:00:00Z'' ''2024-02-27'' ''2024-03-01'' ''B'' ex_db_delta))
   \<and> days_get (snap_days (sync_delta ''2024-03-06T00:00:00Z'' ''2024-02-27'' ''2024-03-01'' ''B'' ex_db_delta))
        ''2024-03-05'' ''t1''
       = Some (entry_out (ex_entry 5 (Some ''2024-03-05T09:00:00Z'')))
   \<and> days_get (snap_days (sync_delta ''2024-03-06T00:00:00Z'' ''2024-02-27'' ''2024-03-01'' ''B'' ex_db_delta))
        ''2024-02-01'' ''t1'' = None
   \<and> days_get (snap_days (sync_delta ''2024-03-06T00:00:00Z'' ''2024-02-27'' ''2024-03-01'' ''B'' ex_db_delta))
        ''2024-03-04'' ''t3'' = None"
proof -
  let ?snap = "sync_delta ''2024-03-06T00:00:00Z'' ''2024-02-27'' ''2024-03-01'' ''B'' ex_db_delta"
  note inst = delta_snapshot_correct [OF keys_unique_ex_db_delta,
      of "''2024-03-06T00:00:00Z''" "''2024-02-27''" "''2024-03-01''" "''B''"]
  have cfg: "map (\<lambda>x. dict_get x ''id'' JNull) (snap_config ?snap) = [JStr ''t1'', JStr ''t4'']"
    using inst [of "''t1''" "''2024-03-05''" "''t1''"]
    by (simp add: ex_db_delta_def ex_tracker_def modified_since_def tracker_out_def
        dict_get_def dict_update_def)
  have del: "snap_deletedTrackers ?snap = [''t2'']"
    using inst [of "''t1''" "''2024-03-05''" "''t1''"]
    by (simp add: ex_db_delta_def ex_tracker_def modified_since_def)
  have live: "''t1'' \<notin> set (snap_deletedTrackers ?snap)"
    using inst [of "''t1''" "''2024-03-05''" "''t1''"]
    by (simp add: ex_db_delta_def ex_tracker_def modified_since_def)
  have d1: "days_get (snap_days ?snap) ''2024-03-05'' ''t1''
      = Some (entry_out (ex_entry 5 (Some ''2024-03-05T09:00:00Z'')))"
    using inst [of "''t1''" "''2024-03-05''" "''t1''"]
    by (simp add: ex_db_delta_def ex_entry_def modified_since_def)
  have d2: "days_get (snap_days ?snap) ''2024-02-01'' ''t1'' = None"
    using inst [of "''t1''" "''2024-02-01''" "''t1''"]
    by (simp add: ex_db_delta_def ex_entry_def modified_since_def)
  have d3: "days_get (snap_days ?snap) ''2024-03-04'' ''t3'' = None"
    using inst [of "''t1''" "''2024-03-04''" "''t3''"]
    by (simp add: ex_db_delta_def ex_entry_def modified_since_def)
  from keys_unique_ex_db_delta cfg del live d1 d2 d3 show ?thesis by blast
qed

section \<open>The soft-delete of an id without a row\<close>

lemma tracker_apply_delete_absent:
  assumes del: "truthy (dict_get item ''_deleted'' (JBool False))"
    and absent: "map_of (trackers (a_db a)) tid = None"
  shows "tracker_apply c n item tid 0 a =
     Inr (a\<lparr>a_applied_config := a_applied_config a @
            [applied_item c n 1 item]\<rparr>)"
proof -
  from absent have "tid \<notin> fst ` set (trackers (a_db a))"
    by (simp add: map_of_eq_None_iff)
  then have "update_where tid
      (\<lambda>r. r\<lparr>t_deleted := 1, t_version := 1, t_last_modified_by := Some c,
             t_last_modified_at := Some n\<rparr>) (trackers (a_db a)) = trackers (a_db a)"
    by (rule update_where_absent)
  with del show ?thesis by (simp add: tracker_apply_def Let_def)
qed

lemma tracker_item_delete_absent:
  assumes id: "dict_get item ''id'' JNull = JStr tid"
    and del: "truthy (dict_get item ''_deleted'' (JBool False))"
    and absent: "map_of (trackers (a_db a)) tid = None"
  shows "tracker_item c n item a =
     Inr (a\<lparr>a_applied_config := a_applied_config a @
            [applied_item c n 1 item]\<rparr>)"
  using id absent tracker_apply_delete_absent [OF del absent]
  by (simp add: tracker_item_def tracker_item_str_def)

lemma deleted_ids_subset_keys:
  "set (snap_deletedTrackers (sync_delta now d7 since cid s)) \<subseteq> fst ` set (trackers s)"
  by (auto simp: snap_deleted_delta)

text \<open>
  Claim C10. A push whose one tracker item carries a truthy \<^verbatim>\<open>_deleted\<close> for an id that
  has no row: there is no row, so the item passes the version test and the response
  reports it as applied with \<^verbatim>\<open>_version\<close> 1 and no conflict; the UPDATE matches no row,
  so the tables \<^verbatim>\<open>trackers\<close> and \<^verbatim>\<open>entries\<close> and the ledger are what they were, the id
  still has no row, and no delta snapshot of the new database lists the id in
  \<^verbatim>\<open>deletedTrackers\<close>.
\<close>

theorem delete_of_absent_tracker:
  assumes id: "dict_get item ''id'' JNull = JStr tid"
    and del: "truthy (dict_get item ''_deleted'' (JBool False))"
    and absent: "map_of (trackers s) tid = None"
    and cfg: "config payload = [item]"
    and dys: "days payload = []"
  shows "\<exists>resp s'. sync_update now payload s = Inr (resp, s')
     \<and> conflicts resp = []
     \<and> appliedConfig resp =
         [applied_item (clientId payload) now 1 item]
     \<and> map (\<lambda>x. dict_get x ''_version'' JNull) (appliedConfig resp) = [JInt 1]
     \<and> trackers s' = trackers s
     \<and> entries s' = entries s
     \<and> sync_conflicts s' = sync_conflicts s
     \<and> map_of (trackers s') tid = None
     \<and> tid \<notin> set (snap_deletedTrackers (sync_delta now' d7 since cid s'))"
proof -
  let ?s1 = "s\<lparr>clients := insert_or_replace (clientId payload)
       \<lparr>cl_name = ''Client-'' @ take 8 (clientId payload), cl_last_seen_at = now\<rparr> (clients s)\<rparr>"
  let ?a0 = "\<lparr>a_db = ?s1, a_conflicts = [], a_applied_config = [], a_applied_days = []\<rparr>"
  let ?echo = "applied_item (clientId payload) now 1 item"
  from absent have abs0: "map_of (trackers (a_db ?a0)) tid = None" by simp
  have step: "process_config (clientId payload) now [item] ?a0 =
      Inr (?a0\<lparr>a_applied_config := [?echo]\<rparr>)"
    using tracker_item_delete_absent [OF id del abs0, of "clientId payload" now] by simp
  have res: "sync_update now payload s =
      Inr (\<lparr>success = True, conflicts = [], appliedConfig = [?echo], appliedDays = [],
             lastModified = Some now, overwrittenData = []\<rparr>,
           ?s1\<lparr>last_server_sync_time := Some now\<rparr>)"
    using step by (simp add: sync_update_def Let_def cfg dys)
  have ver: "dict_get ?echo ''_version'' JNull = JInt 1"
    by (simp add: applied_item_def)
  have nd: "tid \<notin> set (snap_deletedTrackers
      (sync_delta now' d7 since cid (?s1\<lparr>last_server_sync_time := Some now\<rparr>)))"
    using deleted_ids_subset_keys [of now' d7 since cid "?s1\<lparr>last_server_sync_time := Some now\<rparr>"]
      absent by (auto simp: map_of_eq_None_iff)
  show ?thesis
    using res ver nd absent by simp
qed

lemma ex_item_del_id: "dict_get ex_item_del ''id'' JNull = JStr ''t9''"
  by (simp add: ex_item_del_def dict_get_def)

lemma ex_item_del_flag: "truthy (dict_get ex_item_del ''_deleted'' (JBool False))"
  by (simp add: ex_item_del_def dict_get_def)

lemma ex_t9_absent: "map_of (trackers init_database) ''t9'' = None"
  by (simp add: init_database_def)

theorem delete_of_absent_tracker_witness:
  "dict_get ex_item_del ''id'' JNull = JStr ''t9''
   \<and> truthy (dict_get ex_item_del ''_deleted'' (JBool False))
   \<and> map_of (trackers init_database) ''t9'' = None
   \<and> config ex_push_del = [ex_item_del] \<and> days ex_push_del = []
   \<and> (\<exists>resp s'. sync_update ''2024-02-01T08:00:00Z'' ex_push_del init_database = Inr (resp, s')
        \<and> map (\<lambda>x. dict_get x ''_version'' JNull) (appliedConfig resp) = [JInt 1]
        \<and> trackers s' = [] \<and> entries s' = []
        \<and> ''t9'' \<notin> set (snap_deletedTrackers
               (sync_delta ''2024-02-02T00:00:00Z'' ''2024-01-26'' ''2024-01-01T00:00:00Z'' ''B'' s')))"
  using delete_of_absent_tracker [OF ex_item_del_id ex_item_del_flag ex_t9_absent,
      of ex_push_del "''2024-02-01T08:00:00Z''" "''2024-02-02T00:00:00Z''" "''2024-01-26''"
         "''2024-01-01T00:00:00Z''" "''B''"]
    ex_item_del_id ex_item_del_flag ex_t9_absent
  by (auto simp: ex_push_del_def init_database_def)

section \<open>The version test of sync\_update\<close>

lemma tracker_apply_applied:
  assumes "tracker_apply c n item tid (tracker_version (a_db a) tid) a = Inr a'"
  shows "tracker_applied tid a a'"
  using assms
  by (auto simp: tracker_apply_def tracker_applied_def Let_def dict_get_applied_item
      split: if_splits)

lemma tracker_apply_fails:
  "tracker_apply c n item tid sv a = Inl e \<Longrightarrow>
     e = BindError \<and> \<not> truthy (dict_get item ''_deleted'' (JBool False))
     \<and> \<not> (bindable (dict_get item ''name'' JNull)
          \<and> bindable (dict_get item ''category'' (JStr []))
          \<and> bindable (dict_get item ''type'' (JStr ''simple'')))"
  by (auto simp: tracker_apply_def Let_def split: if_splits)

lemma tracker_conflict_conflicted: "item_conflicted a (tracker_conflict tid row cbv a)"
  by (simp add: item_conflicted_def tracker_conflict_def)

lemma butlast_neq: "xs \<noteq> [] \<Longrightarrow> butlast xs \<noteq> xs"
  by (cases xs rule: rev_cases) simp_all

lemma applied_not_conflicted: "tracker_applied tid a a' \<Longrightarrow> \<not> item_conflicted a a'"
  using butlast_neq [of "a_conflicts a'"]
  by (auto simp: tracker_applied_def item_conflicted_def)

lemma tracker_item_gate:
  assumes id: "dict_get item ''id'' JNull = JStr tid"
    and cbv: "as_int (dict_get item ''_baseVersion'' (JInt 0)) = Some b"
  shows "tracker_item c n item a =
     (case map_of (trackers (a_db a)) tid of
        None \<Rightarrow> tracker_apply c n item tid (tracker_version (a_db a) tid) a
      | Some row \<Rightarrow>
          if b < t_version row
          then Inr (tracker_conflict tid row (dict_get item ''_baseVersion'' (JInt 0)) a)
          else tracker_apply c n item tid (tracker_version (a_db a) tid) a)"
  using id cbv
  by (simp add: tracker_item_def tracker_item_str_def py_gt_def tracker_version_def
      split: option.splits)


lemma applied_entry_not_conflicted: "entry_applied d t a a' \<Longrightarrow> \<not> item_conflicted a a'"
  using butlast_neq [of "a_conflicts a'"]
  by (auto simp: entry_applied_def item_conflicted_def)

lemma entry_apply_applied:
  assumes "entry_apply c n d t data (entry_version (a_db a) d t) a = Inr a'"
  shows "entry_applied d t a a'"
  using assms
  by (auto simp: entry_apply_def entry_applied_def Let_def days_get_days_set entry_version_def
      map_of_upsert dict_get_def split: if_splits)

lemma entry_apply_fails:
  "entry_apply c n d t data sv a = Inl e \<Longrightarrow>
     e = BindError \<and> \<not> bindable (dict_get data ''value'' JNull)"
  by (auto simp: entry_apply_def Let_def split: if_splits)

lemma entry_conflict_conflicted: "item_conflicted a (entry_conflict d t row cbv a)"
  by (simp add: item_conflicted_def entry_conflict_def)

lemma entry_item_gate:
  assumes cbv: "as_int (dict_get data ''_baseVersion'' (JInt 0)) = Some b"
  shows "entry_item c n d t data a =
     (case map_of (entries (a_db a)) (d, t) of
        None \<Rightarrow> entry_apply c n d t data (entry_version (a_db a) d t) a
      | Some row \<Rightarrow>
          if b < e_version row
          then Inr (entry_conflict d t row (dict_get data ''_baseVersion'' (JInt 0)) a)
          else entry_apply c n d t data (entry_version (a_db a) d t) a)"
  using cbv
  by (simp add: entry_item_def py_gt_def entry_version_def split: option.splits)

lemma tracker_gate:
  assumes id: "dict_get item ''id'' JNull = JStr tid"
    and cbv: "as_int (dict_get item ''_baseVersion'' (JInt 0)) = Some b"
  shows "case tracker_item c n item a of
       Inl e \<Rightarrow>
         e = BindError
         \<and> (map_of (trackers (a_db a)) tid = None \<or> tracker_version (a_db a) tid \<le> b)
         \<and> \<not> truthy (dict_get item ''_deleted'' (JBool False))
         \<and> \<not> (bindable (dict_get item ''name'' JNull)
              \<and> bindable (dict_get item ''category'' (JStr []))
              \<and> bindable (dict_get item ''type'' (JStr ''simple'')))
     | Inr a' \<Rightarrow>
         (tracker_applied tid a a' \<longleftrightarrow>
            map_of (trackers (a_db a)) tid = None \<or> tracker_version (a_db a) tid \<le> b)
         \<and> (item_conflicted a a' \<longleftrightarrow>
            map_of (trackers (a_db a)) tid \<noteq> None \<and> b < tracker_version (a_db a) tid)"
proof (cases "map_of (trackers (a_db a)) tid = None \<or> tracker_version (a_db a) tid \<le> b")
  case True
  then have eq: "tracker_item c n item a =
      tracker_apply c n item tid (tracker_version (a_db a) tid) a"
    by (auto simp: tracker_item_gate [OF id cbv] tracker_version_def split: option.splits)
  show ?thesis
  proof (cases "tracker_apply c n item tid (tracker_version (a_db a) tid) a")
    case (Inl e)
    with eq True tracker_apply_fails [OF Inl] show ?thesis by simp
  next
    case (Inr a')
    from tracker_apply_applied [OF Inr] have ap: "tracker_applied tid a a'" .
    with applied_not_conflicted [OF ap] eq Inr True show ?thesis by auto
  qed
next
  case False
  then obtain row where row: "map_of (trackers (a_db a)) tid = Some row"
    and gt: "b < t_version row"
    by (auto simp: tracker_version_def)
  have eq: "tracker_item c n item a =
      Inr (tracker_conflict tid row (dict_get item ''_baseVersion'' (JInt 0)) a)"
    using row gt by (simp add: tracker_item_gate [OF id cbv])
  have co: "item_conflicted a (tracker_conflict tid row (dict_get item ''_baseVersion'' (JInt 0)) a)"
    by (rule tracker_conflict_conflicted)
  with applied_not_conflicted [of tid a] eq False row gt show ?thesis
    by (auto simp: tracker_version_def)
qed

lemma entry_gate:
  assumes cbv: "as_int (dict_get data ''_baseVersion'' (JInt 0)) = Some b"
  shows "case entry_item c n d t data a of
       Inl e \<Rightarrow>
         e = BindError
         \<and> (map_of (entries (a_db a)) (d, t) = None \<or> entry_version (a_db a) d t \<le> b)
         \<and> \<not> bindable (dict_get data ''value'' JNull)
     | Inr a' \<Rightarrow>
         (entry_applied d t a a' \<longleftrightarrow>
            map_of (entries (a_db a)) (d, t) = None \<or> entry_version (a_db a) d t \<le> b)
         \<and> (item_conflicted a a' \<longleftrightarrow>
            map_of (entries (a_db a)) (d, t) \<noteq> None \<and> b < entry_version (a_db a) d t)"
proof (cases "map_of (entries (a_db a)) (d, t) = None \<or> entry_version (a_db a) d t \<le> b")
  case True
  then have eq: "entry_item c n d t data a =
      entry_apply c n d t data (entry_version (a_db a) d t) a"
    by (auto simp: entry_item_gate [OF cbv] entry_version_def split: option.splits)
  show ?thesis
  proof (cases "entry_apply c n d t data (entry_version (a_db a) d t) a")
    case (Inl e)
    with eq True entry_apply_fails [OF Inl] show ?thesis by simp
  next
    case (Inr a')
    from entry_apply_applied [OF Inr] have ap: "entry_applied d t a a'" .
    with applied_entry_not_conflicted [OF ap] eq Inr True show ?thesis by auto
  qed
next
  case False
  then obtain row where row: "map_of (entries (a_db a)) (d, t) = Some row"
    and gt: "b < e_version row"
    by (auto simp: entry_version_def)
  have eq: "entry_item c n d t data a =
      Inr (entry_conflict d t row (dict_get data ''_baseVersion'' (JInt 0)) a)"
    using row gt by (simp add: entry_item_gate [OF cbv])
  have co: "item_conflicted a (entry_conflict d t row (dict_get data ''_baseVersion'' (JInt 0)) a)"
    by (rule entry_conflict_conflicted)
  with applied_entry_not_conflicted [of d t a] eq False row gt show ?thesis
    by (auto simp: entry_version_def)
qed


text \<open>
  Claim C1, as the code has it. Take an item whose \<^verbatim>\<open>_baseVersion\<close> is an integer
  \<open>b\<close> (or is left out: \<open>b = 0\<close>), and let the stored version be 0 when the key has
  no row. A turn of the loop either fails on a value that cannot be bound (only when the
  item was to be written), or it ends in exactly one of two ways: the item is applied if
  and only if the key has no row or the stored version is at most \<open>b\<close>; it is reported
  as a conflict if and only if the key has a row and the stored version is greater than
  \<open>b\<close>. For \<open>b \<ge> 0\<close> that is the spec's test: applied if and only if the stored
  version is at most \<open>b\<close>, a conflict otherwise; in particular a key without a row and
  \<open>b = 0\<close> is applied. The same holds for tracker items and, per (date, tracker id),
  for entry items.
\<close>

theorem version_gate:
  assumes cbv: "as_int (dict_get item ''_baseVersion'' (JInt 0)) = Some b"
  shows "(dict_get item ''id'' JNull = JStr tid \<longrightarrow>
          (case tracker_item c n item a of
             Inl e \<Rightarrow>
               e = BindError
               \<and> (map_of (trackers (a_db a)) tid = None \<or> tracker_version (a_db a) tid \<le> b)
               \<and> \<not> truthy (dict_get item ''_deleted'' (JBool False))
               \<and> \<not> (bindable (dict_get item ''name'' JNull)
                    \<and> bindable (dict_get item ''category'' (JStr []))
                    \<and> bindable (dict_get item ''type'' (JStr ''simple'')))
           | Inr a' \<Rightarrow>
               (tracker_applied tid a a' \<longleftrightarrow>
                  map_of (trackers (a_db a)) tid = None \<or> tracker_version (a_db a) tid \<le> b)
               \<and> (item_conflicted a a' \<longleftrightarrow>
                  map_of (trackers (a_db a)) tid \<noteq> None \<and> b < tracker_version (a_db a) tid)
               \<and> (0 \<le> b \<longrightarrow>
                    (tracker_applied tid a a' \<longleftrightarrow> tracker_version (a_db a) tid \<le> b)
                    \<and> (item_conflicted a a' \<longleftrightarrow> b < tracker_version (a_db a) tid))))
       \<and> (case entry_item c n d t item a of
             Inl e \<Rightarrow>
               e = BindError
               \<and> (map_of (entries (a_db a)) (d, t) = None \<or> entry_version (a_db a) d t \<le> b)
               \<and> \<not> bindable (dict_get item ''value'' JNull)
           | Inr a' \<Rightarrow>
               (entry_applied d t a a' \<longleftrightarrow>
                  map_of (entries (a_db a)) (d, t) = None \<or> entry_version (a_db a) d t \<le> b)
               \<and> (item_conflicted a a' \<longleftrightarrow>
                  map_of (entries (a_db a)) (d, t) \<noteq> None \<and> b < entry_version (a_db a) d t)
               \<and> (0 \<le> b \<longrightarrow>
                    (entry_applied d t a a' \<longleftrightarrow> entry_version (a_db a) d t \<le> b)
                    \<and> (item_conflicted a a' \<longleftrightarrow> b < entry_version (a_db a) d t)))"
proof -
  have absent_t: "map_of (trackers (a_db a)) tid = None \<Longrightarrow> tracker_version (a_db a) tid = 0"
    by (simp add: tracker_version_def)
  have absent_e: "map_of (entries (a_db a)) (d, t) = None \<Longrightarrow> entry_version (a_db a) d t = 0"
    by (simp add: entry_version_def)
  show ?thesis
  proof (intro conjI impI)
    assume id: "dict_get item ''id'' JNull = JStr tid"
    show "case tracker_item c n item a of
             Inl e \<Rightarrow>
               e = BindError
               \<and> (map_of (trackers (a_db a)) tid = None \<or> tracker_version (a_db a) tid \<le> b)
               \<and> \<not> truthy (dict_get item ''_deleted'' (JBool False))
               \<and> \<not> (bindable (dict_get item ''name'' JNull)
                    \<and> bindable (dict_get item ''category'' (JStr []))
                    \<and> bindable (dict_get item ''type'' (JStr ''simple'')))
           | Inr a' \<Rightarrow>
               (tracker_applied tid a a' \<longleftrightarrow>
                  map_of (trackers (a_db a)) tid = None \<or> tracker_version (a_db a) tid \<le> b)
               \<and> (item_conflicted a a' \<longleftrightarrow>
                  map_of (trackers (a_db a)) tid \<noteq> None \<and> b < tracker_version (a_db a) tid)
               \<and> (0 \<le> b \<longrightarrow>
                    (tracker_applied tid a a' \<longleftrightarrow> tracker_version (a_db a) tid \<le> b)
                    \<and> (item_conflicted a a' \<longleftrightarrow> b < tracker_version (a_db a) tid))"
    proof (cases "tracker_item c n item a")
      case (Inl e)
      with tracker_gate [OF id cbv, where c = c and n = n and a = a] show ?thesis by simp
    next
      case (Inr a')
      with tracker_gate [OF id cbv, where c = c and n = n and a = a]
      have 1: "tracker_applied tid a a' \<longleftrightarrow>
            map_of (trackers (a_db a)) tid = None \<or> tracker_version (a_db a) tid \<le> b"
        and 2: "item_conflicted a a' \<longleftrightarrow>
            map_of (trackers (a_db a)) tid \<noteq> None \<and> b < tracker_version (a_db a) tid"
        by simp_all
      from 1 2 absent_t Inr show ?thesis by auto
    qed
  next
    show "case entry_item c n d t item a of
             Inl e \<Rightarrow>
               e = BindError
               \<and> (map_of (entries (a_db a)) (d, t) = None \<or> entry_version (a_db a) d t \<le> b)
               \<and> \<not> bindable (dict_get item ''value'' JNull)
           | Inr a' \<Rightarrow>
               (entry_applied d t a a' \<longleftrightarrow>
                  map_of (entries (a_db a)) (d, t) = None \<or> entry_version (a_db a) d t \<le> b)
               \<and> (item_conflicted a a' \<longleftrightarrow>
                  map_of (entries (a_db a)) (d, t) \<noteq> None \<and> b < entry_version (a_db a) d t)
               \<and> (0 \<le> b \<longrightarrow>
                    (entry_applied d t a a' \<longleftrightarrow> entry_version (a_db a) d t \<le> b)
                    \<and> (item_conflicted a a' \<longleftrightarrow> b < entry_version (a_db a) d t))"
    proof (cases "entry_item c n d t item a")
      case (Inl e)
      with entry_gate [OF cbv, where c = c and n = n and d = d and t = t and a = a] show ?thesis by simp
    next
      case (Inr a')
      with entry_gate [OF cbv, where c = c and n = n and d = d and t = t and a = a]
      have 1: "entry_applied d t a a' \<longleftrightarrow>
            map_of (entries (a_db a)) (d, t) = None \<or> entry_version (a_db a) d t \<le> b"
        and 2: "item_conflicted a a' \<longleftrightarrow>
            map_of (entries (a_db a)) (d, t) \<noteq> None \<and> b < entry_version (a_db a) d t"
        by simp_all
      from 1 2 absent_e Inr show ?thesis by auto
    qed
  qed
qed


lemma ex_item_B_base: "as_int (dict_get ex_item_B ''_baseVersion'' (JInt 0)) = Some 0"
  by (simp add: ex_item_B_def dict_get_def)

lemma ex_item_B_id: "dict_get ex_item_B ''id'' JNull = JStr ''t1''"
  by (simp add: ex_item_B_def dict_get_def)

lemma ex_db_A_t1: "map_of (trackers (a_db (acc0 ex_db_A))) ''t1'' \<noteq> None
    \<and> tracker_version (a_db (acc0 ex_db_A)) ''t1'' = 1"
  by code_simp

lemma ex_item_B_step: "\<not> isl (tracker_item ''B'' ''2024-01-02T10:00:00Z'' ex_item_B (acc0 ex_db_A))"
  by code_simp

theorem version_gate_witness:
  "as_int (dict_get ex_item_B ''_baseVersion'' (JInt 0)) = Some 0
   \<and> dict_get ex_item_B ''id'' JNull = JStr ''t1''
   \<and> (0::int) \<le> 0
   \<and> tracker_version (a_db (acc0 ex_db_A)) ''t1'' = 1
   \<and> (\<exists>a'. tracker_item ''B'' ''2024-01-02T10:00:00Z'' ex_item_B (acc0 ex_db_A) = Inr a'
         \<and> item_conflicted (acc0 ex_db_A) a'
         \<and> \<not> tracker_applied ''t1'' (acc0 ex_db_A) a')"
proof -
  from ex_item_B_step obtain a' where
    step: "tracker_item ''B'' ''2024-01-02T10:00:00Z'' ex_item_B (acc0 ex_db_A) = Inr a'"
    by (cases "tracker_item ''B'' ''2024-01-02T10:00:00Z'' ex_item_B (acc0 ex_db_A)") auto
  from version_gate [OF ex_item_B_base, where tid = "''t1''" and c = "''B''"
      and n = "''2024-01-02T10:00:00Z''" and a = "acc0 ex_db_A"]
    ex_item_B_id step ex_db_A_t1
  have "item_conflicted (acc0 ex_db_A) a' \<and> \<not> tracker_applied ''t1'' (acc0 ex_db_A) a'"
    by simp
  with step ex_item_B_base ex_item_B_id ex_db_A_t1 show ?thesis by simp
qed

text \<open>
  Claim C1, as the spec states it, fails for a negative base version: the item
  \<^verbatim>\<open>{"id": "t1", "name": "Run", "_baseVersion": -1}\<close> on a fresh database meets no row, so
  the stored version is 0 and \<open>0 \<le> -1\<close> is false, yet the handler does not compare
  (\<^verbatim>\<open>row and ...\<close>), reports no conflict and applies the item with version 1.
\<close>

theorem negative_base_version_counterexample:
  "dict_get ex_item_neg ''_baseVersion'' (JInt 0) = JInt (- 1)
   \<and> map_of (trackers init_database) ''t1'' = None
   \<and> tracker_version init_database ''t1'' = 0
   \<and> \<not> tracker_version init_database ''t1'' \<le> - 1
   \<and> map_option conflicts
        (response_of (sync_update ''2024-01-01T10:00:00Z'' ex_push_neg init_database)) = Some []
   \<and> map_option (map (\<lambda>x. dict_get x ''_version'' JNull) \<circ> appliedConfig)
        (response_of (sync_update ''2024-01-01T10:00:00Z'' ex_push_neg init_database))
       = Some [JInt 1]
   \<and> tracker_version ex_db_neg ''t1'' = 1"
  by code_simp

section \<open>A conflict leaves the store as it is\<close>

lemma map_of_dict_update:
  "distinct (map fst m) \<Longrightarrow>
   map_of (dict_update d m) k = (case map_of m k of None \<Rightarrow> map_of d k | Some v \<Rightarrow> Some v)"
proof (induction m arbitrary: d)
  case Nil
  then show ?case by (simp add: dict_update_def)
next
  case (Cons x m)
  obtain k0 v0 where x: "x = (k0, v0)" by (cases x)
  from Cons.prems x have notin: "map_of m k0 = None" and dist: "distinct (map fst m)"
    by (auto simp: map_of_eq_None_iff)
  have "dict_update d (x # m) = dict_update (AList.update k0 v0 d) m"
    by (simp add: dict_update_def x)
  then show ?case
    using notin by (simp add: Cons.IH [OF dist] x update_conv' split: option.splits)
qed

lemma tracker_server_data_fields:
  assumes meta: "t_meta_json row = Some meta"
    and dist: "distinct (map fst meta)"
    and free: "fst ` set meta \<inter> set excluded_keys = {}"
  shows "map_of (tracker_server_data tid row) ''id'' = Some (JStr tid)"
    and "map_of (tracker_server_data tid row) ''name'' = Some (t_name row)"
    and "map_of (tracker_server_data tid row) ''category'' = Some (t_category row)"
    and "map_of (tracker_server_data tid row) ''type'' = Some (t_type row)"
    and "map_of (tracker_server_data tid row) ''_version'' = Some (JInt (t_version row))"
    and "(k, v) \<in> set meta \<Longrightarrow> map_of (tracker_server_data tid row) k = Some v"
proof -
  have none: "k' \<in> set excluded_keys \<Longrightarrow> map_of meta k' = None" for k'
    using free by (auto simp: map_of_eq_None_iff)
  show "map_of (tracker_server_data tid row) ''id'' = Some (JStr tid)"
    and "map_of (tracker_server_data tid row) ''name'' = Some (t_name row)"
    and "map_of (tracker_server_data tid row) ''category'' = Some (t_category row)"
    and "map_of (tracker_server_data tid row) ''type'' = Some (t_type row)"
    and "map_of (tracker_server_data tid row) ''_version'' = Some (JInt (t_version row))"
    using none [of "''id''"] none [of "''name''"] none [of "''category''"] none [of "''type''"]
      none [of "''_version''"]
    by (simp_all add: tracker_server_data_def meta map_of_dict_update [OF dist] excluded_keys_def)
  show "map_of (tracker_server_data tid row) k = Some v" if "(k, v) \<in> set meta"
    using that dist
    by (simp add: tracker_server_data_def meta map_of_dict_update [OF dist])
qed

text \<open>
  Claim C6. Take an item of a push whose base version \<open>b\<close> is an integer (0 when left
  out) and whose key has a row with a version greater than \<open>b\<close>. The turn of the loop
  succeeds and changes nothing but the list of conflicts: the database (every table, so
  the row of the key with its version, fields and timestamps) and the applied items are
  what they were. The conflict appended carries the entity type, the entity id, the
  server's version, the client's base version and the server's data; and the loop goes on
  with the remaining items from there. The server's data of a tracker holds its id, name,
  category, type and version and every field of its \<^verbatim>\<open>meta_json\<close> (whose keys, as the
  handlers write them, are distinct and none of the excluded ones); the server's data of
  an entry holds its value, its completed flag and its version.
\<close>

theorem conflict_frame:
  assumes cbv: "as_int (dict_get item ''_baseVersion'' (JInt 0)) = Some b"
  shows "(dict_get item ''id'' JNull = JStr tid \<and> map_of (trackers (a_db a)) tid = Some row
            \<and> b < t_version row \<longrightarrow>
          (\<exists>a'. tracker_item c n item a = Inr a'
             \<and> a_db a' = a_db a
             \<and> a_applied_config a' = a_applied_config a
             \<and> a_applied_days a' = a_applied_days a
             \<and> a_conflicts a' = a_conflicts a @
                 [\<lparr>entityType = ''tracker'', entityId = tid, serverVersion = t_version row,
                   clientBaseVersion = b, serverData = tracker_server_data tid row\<rparr>]
             \<and> process_config c n (item # items) a = process_config c n items a'))
       \<and> (map_of (entries (a_db a)) (d, t) = Some erow \<and> b < e_version erow \<longrightarrow>
          (\<exists>a'. entry_item c n d t item a = Inr a'
             \<and> a_db a' = a_db a
             \<and> a_applied_config a' = a_applied_config a
             \<and> a_applied_days a' = a_applied_days a
             \<and> a_conflicts a' = a_conflicts a @
                 [\<lparr>entityType = ''entry'', entityId = d @ ''|'' @ t, serverVersion = e_version erow,
                   clientBaseVersion = b,
                   serverData =
                     [(''value'', e_value erow), (''completed'', completed_json (e_completed erow)),
                      (''_version'', JInt (e_version erow))]\<rparr>]
             \<and> process_trackers_map c n d ((t, item) # rest) a
                 = process_trackers_map c n d rest a'))
       \<and> (t_meta_json row = Some meta \<and> distinct (map fst meta)
            \<and> fst ` set meta \<inter> set excluded_keys = {} \<longrightarrow>
          map_of (tracker_server_data tid row) ''id'' = Some (JStr tid)
          \<and> map_of (tracker_server_data tid row) ''name'' = Some (t_name row)
          \<and> map_of (tracker_server_data tid row) ''category'' = Some (t_category row)
          \<and> map_of (tracker_server_data tid row) ''type'' = Some (t_type row)
          \<and> map_of (tracker_server_data tid row) ''_version'' = Some (JInt (t_version row))
          \<and> list_all (\<lambda>kv. map_of (tracker_server_data tid row) (fst kv) = Some (snd kv)) meta)"
proof (intro conjI impI)
  assume h: "dict_get item ''id'' JNull = JStr tid \<and> map_of (trackers (a_db a)) tid = Some row
      \<and> b < t_version row"
  then have "tracker_item c n item a =
      Inr (tracker_conflict tid row (dict_get item ''_baseVersion'' (JInt 0)) a)"
    using cbv by (simp add: tracker_item_gate)
  then show "\<exists>a'. tracker_item c n item a = Inr a'
             \<and> a_db a' = a_db a
             \<and> a_applied_config a' = a_applied_config a
             \<and> a_applied_days a' = a_applied_days a
             \<and> a_conflicts a' = a_conflicts a @
                 [\<lparr>entityType = ''tracker'', entityId = tid, serverVersion = t_version row,
                   clientBaseVersion = b, serverData = tracker_server_data tid row\<rparr>]
             \<and> process_config c n (item # items) a = process_config c n items a'"
    using cbv by (simp add: tracker_conflict_def base_version_int_def)
next
  assume h: "map_of (entries (a_db a)) (d, t) = Some erow \<and> b < e_version erow"
  then have "entry_item c n d t item a =
      Inr (entry_conflict d t erow (dict_get item ''_baseVersion'' (JInt 0)) a)"
    using cbv by (simp add: entry_item_gate)
  then show "\<exists>a'. entry_item c n d t item a = Inr a'
             \<and> a_db a' = a_db a
             \<and> a_applied_config a' = a_applied_config a
             \<and> a_applied_days a' = a_applied_days a
             \<and> a_conflicts a' = a_conflicts a @
                 [\<lparr>entityType = ''entry'', entityId = d @ ''|'' @ t, serverVersion = e_version erow,
                   clientBaseVersion = b,
                   serverData =
                     [(''value'', e_value erow), (''completed'', completed_json (e_completed erow)),
                      (''_version'', JInt (e_version erow))]\<rparr>]
             \<and> process_trackers_map c n d ((t, item) # rest) a
                 = process_trackers_map c n d rest a'"
    using cbv by (simp add: entry_conflict_def base_version_int_def entry_server_data_def)
next
  assume "t_meta_json row = Some meta \<and> distinct (map fst meta)
      \<and> fst ` set meta \<inter> set excluded_keys = {}"
  then have m: "t_meta_json row = Some meta" and d: "distinct (map fst meta)"
    and f: "fst ` set meta \<inter> set excluded_keys = {}" by simp_all
  note fields = tracker_server_data_fields [OF m d f]
  show "map_of (tracker_server_data tid row) ''id'' = Some (JStr tid)" by (rule fields)
  show "map_of (tracker_server_data tid row) ''name'' = Some (t_name row)" by (rule fields)
  show "map_of (tracker_server_data tid row) ''category'' = Some (t_category row)" by (rule fields)
  show "map_of (tracker_server_data tid row) ''type'' = Some (t_type row)" by (rule fields)
  show "map_of (tracker_server_data tid row) ''_version'' = Some (JInt (t_version row))"
    by (rule fields)
  show "list_all (\<lambda>kv. map_of (tracker_server_data tid row) (fst kv) = Some (snd kv)) meta"
    using fields(6) by (auto simp: list_all_iff)
qed

lemma ex_row_A_stored: "map_of (trackers (a_db (acc0 ex_db_A))) ''t1'' = Some ex_row_A"
  by code_simp

lemma ex_row_A_newer: "0 < t_version ex_row_A"
  by (simp add: ex_row_A_def)

lemma ex_data_9_base: "as_int (dict_get ex_data_9 ''_baseVersion'' (JInt 0)) = Some 0"
  by (simp add: ex_data_9_def dict_get_def)

lemma ex_entry_stored:
  "map_of (entries (a_db (acc0 ex_db_delta))) (''2024-03-05'', ''t1'')
     = Some (ex_entry 5 (Some ''2024-03-05T09:00:00Z''))"
  by (simp add: acc0_def ex_db_delta_def)

lemma ex_entry_newer: "0 < e_version (ex_entry 5 (Some ''2024-03-05T09:00:00Z''))"
  by (simp add: ex_entry_def)

lemma ex_row_A_meta:
  "t_meta_json ex_row_A = Some [(''goal'', JInt 10), (''unit'', JStr ''km'')]
   \<and> distinct (map fst [(''goal'', JInt 10), (''unit'', JStr ''km'')])
   \<and> fst ` set [(''goal'', JInt 10), (''unit'', JStr ''km'')] \<inter> set excluded_keys = {}"
  by (simp add: ex_row_A_def excluded_keys_def)

theorem conflict_frame_witness:
  "as_int (dict_get ex_item_B ''_baseVersion'' (JInt 0)) = Some 0
   \<and> dict_get ex_item_B ''id'' JNull = JStr ''t1''
   \<and> map_of (trackers (a_db (acc0 ex_db_A))) ''t1'' = Some ex_row_A
   \<and> 0 < t_version ex_row_A
   \<and> (\<exists>a'. tracker_item ''B'' ''2024-01-02T10:00:00Z'' ex_item_B (acc0 ex_db_A) = Inr a'
        \<and> a_db a' = a_db (acc0 ex_db_A)
        \<and> a_conflicts a' =
            [\<lparr>entityType = ''tracker'', entityId = ''t1'', serverVersion = t_version ex_row_A,
              clientBaseVersion = 0, serverData = tracker_server_data ''t1'' ex_row_A\<rparr>]
        \<and> process_config ''B'' ''2024-01-02T10:00:00Z'' [ex_item_B, ex_item_new] (acc0 ex_db_A)
            = process_config ''B'' ''2024-01-02T10:00:00Z'' [ex_item_new] a')
   \<and> map_of (tracker_server_data ''t1'' ex_row_A) ''name'' = Some (JStr ''Run'')
   \<and> map_of (tracker_server_data ''t1'' ex_row_A) ''goal'' = Some (JInt 10)
   \<and> as_int (dict_get ex_data_9 ''_baseVersion'' (JInt 0)) = Some 0
   \<and> map_of (entries (a_db (acc0 ex_db_delta))) (''2024-03-05'', ''t1'')
       = Some (ex_entry 5 (Some ''2024-03-05T09:00:00Z''))
   \<and> (\<exists>a'. entry_item ''B'' ''2024-03-06T10:00:00Z'' ''2024-03-05'' ''t1'' ex_data_9
               (acc0 ex_db_delta) = Inr a'
        \<and> a_db a' = a_db (acc0 ex_db_delta)
        \<and> map serverVersion (a_conflicts a') = [1])"
proof -
  note trk = conflict_frame [OF ex_item_B_base, where tid = "''t1''" and a = "acc0 ex_db_A"
      and row = ex_row_A and c = "''B''" and n = "''2024-01-02T10:00:00Z''"
      and items = "[ex_item_new]"
      and meta = "[(''goal'', JInt 10), (''unit'', JStr ''km'')]"]
  note ent = conflict_frame [OF ex_data_9_base, where a = "acc0 ex_db_delta"
      and d = "''2024-03-05''" and t = "''t1''"
      and erow = "ex_entry 5 (Some ''2024-03-05T09:00:00Z'')"
      and c = "''B''" and n = "''2024-03-06T10:00:00Z''"]
  have 1: "\<exists>a'. tracker_item ''B'' ''2024-01-02T10:00:00Z'' ex_item_B (acc0 ex_db_A) = Inr a'
        \<and> a_db a' = a_db (acc0 ex_db_A)
        \<and> a_conflicts a' =
            [\<lparr>entityType = ''tracker'', entityId = ''t1'', serverVersion = t_version ex_row_A,
              clientBaseVersion = 0, serverData = tracker_server_data ''t1'' ex_row_A\<rparr>]
        \<and> process_config ''B'' ''2024-01-02T10:00:00Z'' [ex_item_B, ex_item_new] (acc0 ex_db_A)
            = process_config ''B'' ''2024-01-02T10:00:00Z'' [ex_item_new] a'"
  proof -
    from trk ex_item_B_id ex_row_A_stored ex_row_A_newer obtain a' where
      "tracker_item ''B'' ''2024-01-02T10:00:00Z'' ex_item_B (acc0 ex_db_A) = Inr a'"
      "a_db a' = a_db (acc0 ex_db_A)"
      "a_conflicts a' = a_conflicts (acc0 ex_db_A) @
            [\<lparr>entityType = ''tracker'', entityId = ''t1'', serverVersion = t_version ex_row_A,
              clientBaseVersion = 0, serverData = tracker_server_data ''t1'' ex_row_A\<rparr>]"
      "process_config ''B'' ''2024-01-02T10:00:00Z'' [ex_item_B, ex_item_new] (acc0 ex_db_A)
            = process_config ''B'' ''2024-01-02T10:00:00Z'' [ex_item_new] a'"
      by blast
    moreover have "a_conflicts (acc0 ex_db_A) = []" by (simp add: acc0_def)
    ultimately show ?thesis by (intro exI [of _ a']) (simp del: process_config.simps)
  qed
  have 2: "map_of (tracker_server_data ''t1'' ex_row_A) ''name'' = Some (JStr ''Run'')
      \<and> map_of (tracker_server_data ''t1'' ex_row_A) ''goal'' = Some (JInt 10)"
    using trk ex_row_A_meta by (simp add: ex_row_A_def)
  have 3: "\<exists>a'. entry_item ''B'' ''2024-03-06T10:00:00Z'' ''2024-03-05'' ''t1'' ex_data_9
               (acc0 ex_db_delta) = Inr a'
        \<and> a_db a' = a_db (acc0 ex_db_delta)
        \<and> map serverVersion (a_conflicts a') = [1]"
  proof -
    from ent ex_entry_stored ex_entry_newer obtain a' where
      "entry_item ''B'' ''2024-03-06T10:00:00Z'' ''2024-03-05'' ''t1'' ex_data_9
               (acc0 ex_db_delta) = Inr a'"
      "a_db a' = a_db (acc0 ex_db_delta)"
      "a_conflicts a' = a_conflicts (acc0 ex_db_delta) @
                 [\<lparr>entityType = ''entry'', entityId = ''2024-03-05'' @ ''|'' @ ''t1'',
                   serverVersion = e_version (ex_entry 5 (Some ''2024-03-05T09:00:00Z'')),
                   clientBaseVersion = 0,
                   serverData =
                     [(''value'', e_value (ex_entry 5 (Some ''2024-03-05T09:00:00Z''))),
                      (''completed'',
                       completed_json (e_completed (ex_entry 5 (Some ''2024-03-05T09:00:00Z'')))),
                      (''_version'',
                       JInt (e_version (ex_entry 5 (Some ''2024-03-05T09:00:00Z''))))]\<rparr>]"
      by blast
    moreover have "a_conflicts (acc0 ex_db_delta) = []" by (simp add: acc0_def)
    ultimately show ?thesis by (intro exI [of _ a']) (simp add: ex_entry_def)
  qed
  from 1 2 3 ex_item_B_base ex_item_B_id ex_row_A_stored ex_row_A_newer ex_data_9_base
    ex_entry_stored
  show ?thesis by blast
qed

section \<open>The watermark\<close>

lemma grows_refl: "grows tab tab ver"
  by (auto simp: grows_def split: option.splits)

lemma tracker_apply_tables:
  assumes "tracker_apply c n item tid (tracker_version (a_db a) tid) a = Inr a'"
  shows "a_conflicts a' = a_conflicts a"
    and "a_applied_days a' = a_applied_days a"
    and "a_applied_config a' =
          a_applied_config a @ [applied_item c n (tracker_version (a_db a) tid + 1) item]"
    and "entries (a_db a') = entries (a_db a)"
    and "map_of (trackers (a_db a')) tid =
          (if truthy (dict_get item ''_deleted'' (JBool False))
           then map_option (\<lambda>r. r\<lparr>t_deleted := 1, t_version := tracker_version (a_db a) tid + 1,
                                   t_last_modified_by := Some c, t_last_modified_at := Some n\<rparr>)
                  (map_of (trackers (a_db a)) tid)
           else Some \<lparr>t_name = dict_get item ''name'' JNull,
                       t_category = dict_get item ''category'' (JStr []),
                       t_type = dict_get item ''type'' (JStr ''simple''),
                       t_meta_json = Some (meta_of item),
                       t_version = tracker_version (a_db a) tid + 1,
                       t_last_modified_by = Some c, t_last_modified_at = Some n,
                       t_deleted = 0\<rparr>)"
    and "k \<noteq> tid \<Longrightarrow> map_of (trackers (a_db a')) k = map_of (trackers (a_db a)) k"
  using assms
  by (auto simp: tracker_apply_def Let_def map_of_upsert map_of_update_where split: if_splits)

lemma tracker_apply_grows:
  assumes ap: "tracker_apply c n item tid (tracker_version (a_db a) tid) a = Inr a'"
  shows "grows (trackers (a_db a)) (trackers (a_db a')) t_version"
  unfolding grows_def
proof
  fix k
  show "case map_of (trackers (a_db a)) k of
          None \<Rightarrow> (case map_of (trackers (a_db a')) k of None \<Rightarrow> True | Some r' \<Rightarrow> 1 \<le> t_version r')
        | Some r \<Rightarrow> (case map_of (trackers (a_db a')) k of
                       None \<Rightarrow> False | Some r' \<Rightarrow> t_version r \<le> t_version r')"
  proof (cases "k = tid")
    case True
    with tracker_apply_tables(5) [OF ap] show ?thesis
      by (auto simp: tracker_version_def split: option.splits)
  next
    case False
    with tracker_apply_tables(6) [OF ap, of k] show ?thesis
      by (auto split: option.splits)
  qed
qed

lemma tracker_item_cases:
  assumes "tracker_item c n item a = Inr a'"
  obtains (conflict) tid where "dict_get item ''id'' JNull = JStr tid" "item_conflicted a a'"
  | (applied) tid where "dict_get item ''id'' JNull = JStr tid"
      "tracker_apply c n item tid (tracker_version (a_db a) tid) a = Inr a'"
proof -
  from assms obtain tid where id: "dict_get item ''id'' JNull = JStr tid"
    and st: "tracker_item_str c n item tid a = Inr a'"
    by (auto simp: tracker_item_def split: json.splits)
  show thesis
  proof (cases "map_of (trackers (a_db a)) tid")
    case None
    with st have "tracker_apply c n item tid (tracker_version (a_db a) tid) a = Inr a'"
      by (simp add: tracker_item_str_def tracker_version_def)
    with id show thesis by (rule applied)
  next
    case (Some row)
    show thesis
    proof (cases "py_gt (t_version row) (dict_get item ''_baseVersion'' (JInt 0))")
      case (Inl e)
      with st Some show thesis by (simp add: tracker_item_str_def)
    next
      case (Inr g)
      show thesis
      proof (cases g)
        case True
        with st Some Inr
        have "a' = tracker_conflict tid row (dict_get item ''_baseVersion'' (JInt 0)) a"
          by (simp add: tracker_item_str_def)
        then have "item_conflicted a a'" by (simp add: tracker_conflict_conflicted)
        with id show thesis by (rule conflict)
      next
        case False
        with st Some Inr
        have "tracker_apply c n item tid (tracker_version (a_db a) tid) a = Inr a'"
          by (simp add: tracker_item_str_def tracker_version_def)
        with id show thesis by (rule applied)
      qed
    qed
  qed
qed

lemma tracker_item_grows:
  assumes "tracker_item c n item a = Inr a'"
  shows "grows (trackers (a_db a)) (trackers (a_db a')) t_version"
  using assms
proof (cases rule: tracker_item_cases)
  case (conflict tid)
  then show ?thesis by (simp add: item_conflicted_def grows_refl)
next
  case (applied tid)
  then show ?thesis by (simp add: tracker_apply_grows)
qed

lemma tracker_durable_grows:
  assumes "tracker_durable s x" and "grows (trackers s) (trackers s') t_version"
  shows "tracker_durable s' x"
proof -
  from assms(1) obtain tid v where id: "dict_get x ''id'' JNull = JStr tid"
    and v: "dict_get x ''_version'' JNull = JInt v"
    by (auto simp: tracker_durable_def split: json.splits)
  from assms(2) have g: "case map_of (trackers s) tid of
            None \<Rightarrow> (case map_of (trackers s') tid of None \<Rightarrow> True | Some r' \<Rightarrow> 1 \<le> t_version r')
          | Some r \<Rightarrow> (case map_of (trackers s') tid of
                         None \<Rightarrow> False | Some r' \<Rightarrow> t_version r \<le> t_version r')"
    by (simp add: grows_def)
  with assms(1) id v show ?thesis
    by (auto simp: tracker_durable_def split: option.splits)
qed

lemma tracker_item_durable:
  assumes step: "tracker_item c n item a = Inr a'"
    and inv: "list_all (tracker_durable (a_db a)) (a_applied_config a)"
  shows "list_all (tracker_durable (a_db a')) (a_applied_config a')"
  using step
proof (cases rule: tracker_item_cases)
  case (conflict tid)
  with inv show ?thesis by (simp add: item_conflicted_def)
next
  case (applied tid)
  note t = tracker_apply_tables [OF applied(2)]
  have old: "list_all (tracker_durable (a_db a')) (a_applied_config a)"
    using inv tracker_durable_grows [OF _ tracker_apply_grows [OF applied(2)]]
    by (auto simp: list_all_iff)
  have new: "tracker_durable (a_db a')
      (applied_item c n (tracker_version (a_db a) tid + 1) item)"
    using applied(1) t(5)
    by (auto simp: tracker_durable_def dict_get_applied_item tracker_version_def
        split: option.splits)
  from old new t(3) show ?thesis by simp
qed

lemma process_config_durable:
  assumes "process_config c n items a = Inr a'"
    and "list_all (tracker_durable (a_db a)) (a_applied_config a)"
  shows "list_all (tracker_durable (a_db a')) (a_applied_config a')"
  using assms
proof (induction items arbitrary: a)
  case Nil
  then show ?case by simp
next
  case (Cons item items)
  from Cons.prems(1) obtain a1 where 1: "tracker_item c n item a = Inr a1"
    and 2: "process_config c n items a1 = Inr a'"
    by (auto split: sum.splits)
  from tracker_item_durable [OF 1 Cons.prems(2)] show ?case by (rule Cons.IH [OF 2])
qed


lemma tracker_durable_cong:
  assumes "trackers s' = trackers s"
  shows "tracker_durable s' = tracker_durable s"
  unfolding tracker_durable_def assms by (rule refl)

lemma entry_durable_cong:
  assumes "entries s' = entries s"
  shows "entry_durable s' = entry_durable s"
  unfolding entry_durable_def assms by (rule refl)

lemma entry_durable_other:
  assumes "map_of (entries s') (d, t) = map_of (entries s) (d, t)"
  shows "entry_durable s' d t out = entry_durable s d t out"
  unfolding entry_durable_def assms by (rule refl)

lemma entry_item_cases:
  assumes "entry_item c n d t data a = Inr a'"
  obtains (conflict) "item_conflicted a a'"
  | (applied) "entry_apply c n d t data (entry_version (a_db a) d t) a = Inr a'"
proof (cases "map_of (entries (a_db a)) (d, t)")
  case None
  with assms have "entry_apply c n d t data (entry_version (a_db a) d t) a = Inr a'"
    by (simp add: entry_item_def entry_version_def)
  then show thesis by (rule applied)
next
  case (Some row)
  show thesis
  proof (cases "py_gt (e_version row) (dict_get data ''_baseVersion'' (JInt 0))")
    case (Inl e)
    with assms Some show thesis by (simp add: entry_item_def)
  next
    case (Inr g)
    show thesis
    proof (cases g)
      case True
      with assms Some Inr
      have "a' = entry_conflict d t row (dict_get data ''_baseVersion'' (JInt 0)) a"
        by (simp add: entry_item_def)
      then have "item_conflicted a a'" by (simp add: entry_conflict_conflicted)
      then show thesis by (rule conflict)
    next
      case False
      with assms Some Inr
      have "entry_apply c n d t data (entry_version (a_db a) d t) a = Inr a'"
        by (simp add: entry_item_def entry_version_def)
      then show thesis by (rule applied)
    qed
  qed
qed

lemma entry_apply_tables:
  assumes "entry_apply c n d t data (entry_version (a_db a) d t) a = Inr a'"
  shows "a_conflicts a' = a_conflicts a"
    and "a_applied_config a' = a_applied_config a"
    and "trackers (a_db a') = trackers (a_db a)"
    and "a_applied_days a' =
          days_set d t
            [(''value'', dict_get data ''value'' JNull),
             (''completed'', dict_get data ''completed'' JNull),
             (''_version'', JInt (entry_version (a_db a) d t + 1)),
             (''_lastModifiedBy'', JStr c), (''_lastModifiedAt'', JStr n)]
            (a_applied_days a)"
    and "map_of (entries (a_db a')) =
          (map_of (entries (a_db a)))((d, t) \<mapsto>
             \<lparr>e_value = dict_get data ''value'' JNull,
              e_completed = completed_int (dict_get data ''completed'' JNull),
              e_version = entry_version (a_db a) d t + 1,
              e_last_modified_by = Some c, e_last_modified_at = Some n\<rparr>)"
  using assms
  by (auto simp: entry_apply_def Let_def map_of_upsert split: if_splits)

lemma entry_item_days_durable:
  assumes step: "entry_item c n d t data a = Inr a'" and inv: "days_durable a"
  shows "days_durable a'"
  using step
proof (cases rule: entry_item_cases)
  case conflict
  with inv show ?thesis by (simp add: item_conflicted_def days_durable_def)
next
  case applied
  define out0 where "out0 = [(''value'', dict_get data ''value'' JNull),
             (''completed'', dict_get data ''completed'' JNull),
             (''_version'', JInt (entry_version (a_db a) d t + 1)),
             (''_lastModifiedBy'', JStr c), (''_lastModifiedAt'', JStr n)]"
  define row0 where "row0 = \<lparr>e_value = dict_get data ''value'' JNull,
              e_completed = completed_int (dict_get data ''completed'' JNull),
              e_version = entry_version (a_db a) d t + 1,
              e_last_modified_by = Some c, e_last_modified_at = Some n\<rparr>"
  have days: "a_applied_days a' = days_set d t out0 (a_applied_days a)"
    unfolding out0_def by (rule entry_apply_tables(4) [OF applied])
  have tab: "map_of (entries (a_db a')) = (map_of (entries (a_db a)))((d, t) \<mapsto> row0)"
    unfolding row0_def by (rule entry_apply_tables(5) [OF applied])
  have look: "days_get (a_applied_days a') d' t' =
      (if d' = d \<and> t' = t then Some out0 else days_get (a_applied_days a) d' t')" for d' t'
    by (simp only: days days_get_days_set)
  have new: "entry_durable (a_db a') d t out0"
    by (simp add: entry_durable_def tab out0_def row0_def dict_get_def)
  show ?thesis
    unfolding days_durable_def
  proof (intro allI impI)
    fix d' t' out
    assume g: "days_get (a_applied_days a') d' t' = Some out"
    show "entry_durable (a_db a') d' t' out"
    proof (cases "d' = d \<and> t' = t")
      case True
      with g look [of d' t'] have "out = out0" by simp
      with True new show ?thesis by simp
    next
      case False
      with g look [of d' t'] have "days_get (a_applied_days a) d' t' = Some out" by simp
      with inv have "entry_durable (a_db a) d' t' out" by (simp add: days_durable_def)
      moreover from False
      have "map_of (entries (a_db a')) (d', t') = map_of (entries (a_db a)) (d', t')"
        by (auto simp: tab)
      then have "entry_durable (a_db a') d' t' out = entry_durable (a_db a) d' t' out"
        by (rule entry_durable_other)
      ultimately show ?thesis by simp
    qed
  qed
qed

lemma entry_item_config_durable:
  assumes step: "entry_item c n d t data a = Inr a'"
    and inv: "list_all (tracker_durable (a_db a)) (a_applied_config a)"
  shows "list_all (tracker_durable (a_db a')) (a_applied_config a')"
  using step
proof (cases rule: entry_item_cases)
  case conflict
  with inv show ?thesis by (simp add: item_conflicted_def)
next
  case applied
  note e = entry_apply_tables [OF applied]
  have "tracker_durable (a_db a') = tracker_durable (a_db a)"
    using e(3) by (rule tracker_durable_cong)
  with inv e(2) show ?thesis by simp
qed

lemma tracker_item_days_durable:
  assumes step: "tracker_item c n item a = Inr a'" and inv: "days_durable a"
  shows "days_durable a'"
  using step
proof (cases rule: tracker_item_cases)
  case (conflict tid)
  with inv show ?thesis by (simp add: item_conflicted_def days_durable_def)
next
  case (applied tid)
  note t = tracker_apply_tables [OF applied(2)]
  have "entry_durable (a_db a') = entry_durable (a_db a)"
    using t(4) by (rule entry_durable_cong)
  with inv t(2) show ?thesis by (simp add: days_durable_def)
qed

lemma push_inv_config:
  "process_config c n items a = Inr a' \<Longrightarrow> push_inv a \<Longrightarrow> push_inv a'"
proof (induction items arbitrary: a)
  case Nil
  then show ?case by simp
next
  case (Cons item items)
  from Cons.prems(1) obtain a1 where 1: "tracker_item c n item a = Inr a1"
    and 2: "process_config c n items a1 = Inr a'"
    by (auto split: sum.splits)
  from Cons.prems(2) have "push_inv a1"
    using tracker_item_durable [OF 1] tracker_item_days_durable [OF 1]
    by (simp add: push_inv_def)
  then show ?case by (rule Cons.IH [OF 2])
qed

lemma push_inv_trackers_map:
  "process_trackers_map c n d m a = Inr a' \<Longrightarrow> push_inv a \<Longrightarrow> push_inv a'"
proof (induction m arbitrary: a)
  case Nil
  then show ?case by simp
next
  case (Cons x m)
  obtain t data where x: "x = (t, data)" by (cases x)
  with Cons.prems(1) obtain a1 where 1: "entry_item c n d t data a = Inr a1"
    and 2: "process_trackers_map c n d m a1 = Inr a'"
    by (auto split: sum.splits)
  from Cons.prems(2) have "push_inv a1"
    using entry_item_config_durable [OF 1] entry_item_days_durable [OF 1]
    by (simp add: push_inv_def)
  then show ?case by (rule Cons.IH [OF 2])
qed

lemma push_inv_new_date:
  assumes "push_inv a" and "d \<notin> fst ` set (a_applied_days a)"
  shows "push_inv (a\<lparr>a_applied_days := AList.update d [] (a_applied_days a)\<rparr>)"
  using assms by (simp add: push_inv_def days_durable_def days_get_new_date)

lemma push_inv_days:
  "process_days c n ds a = Inr a' \<Longrightarrow> push_inv a \<Longrightarrow> push_inv a'"
proof (induction ds arbitrary: a)
  case Nil
  then show ?case by simp
next
  case (Cons x ds)
  obtain d m where x: "x = (d, m)" by (cases x)
  define a0 where "a0 = (if d \<notin> fst ` set (a_applied_days a)
                then a\<lparr>a_applied_days := AList.update d [] (a_applied_days a)\<rparr> else a)"
  have inv0: "push_inv a0"
    using Cons.prems(2) push_inv_new_date [of a d] by (simp add: a0_def)
  from Cons.prems(1) x obtain a1 where 1: "process_trackers_map c n d m a0 = Inr a1"
    and 2: "process_days c n ds a1 = Inr a'"
    by (auto simp: Let_def a0_def split: sum.splits)
  from push_inv_trackers_map [OF 1 inv0] show ?case by (rule Cons.IH [OF 2])
qed

lemma sync_update_unfold:
  assumes "sync_update now payload s = Inr (resp, s')"
  obtains a1 a2 where
    "process_config (clientId payload) now (config payload)
       (acc0 (s\<lparr>clients := insert_or_replace (clientId payload)
                   \<lparr>cl_name = ''Client-'' @ take 8 (clientId payload), cl_last_seen_at = now\<rparr>
                   (clients s)\<rparr>)) = Inr a1"
    "process_days (clientId payload) now (days payload) a1 = Inr a2"
    "resp = \<lparr>success = (a_conflicts a2 = []), conflicts = a_conflicts a2,
             appliedConfig = a_applied_config a2, appliedDays = a_applied_days a2,
             lastModified = (if a_conflicts a2 = [] then Some now else None),
             overwrittenData = []\<rparr>"
    "s' = (if a_conflicts a2 = [] then (a_db a2)\<lparr>last_server_sync_time := Some now\<rparr>
          else a_db a2)"
  using assms
  by (auto simp: sync_update_def Let_def acc0_def split: sum.splits)

text \<open>
  Claim C3. A push that the handler commits sets the watermark
  \<^verbatim>\<open>last_server_sync_time\<close> to the time of the push, and returns that time as
  \<^verbatim>\<open>lastModified\<close>, if and only if the push produced no conflict; a push with a conflict
  leaves the watermark as it was and returns no \<^verbatim>\<open>lastModified\<close>. In both cases every
  item the response reports as applied is in the committed database: the tracker's row
  with at least the reported version (but for the soft-delete of an id that has no row,
  which stores nothing), the entry's row with at least the reported version.
\<close>

theorem watermark_iff_no_conflicts:
  assumes ok: "sync_update now payload s = Inr (resp, s')"
  shows "(conflicts resp = [] \<longrightarrow>
            success resp \<and> last_server_sync_time s' = Some now \<and> lastModified resp = Some now)
       \<and> (conflicts resp \<noteq> [] \<longrightarrow>
            \<not> success resp \<and> last_server_sync_time s' = last_server_sync_time s
            \<and> lastModified resp = None)
       \<and> list_all (tracker_durable s') (appliedConfig resp)
       \<and> (\<forall>d t out. days_get (appliedDays resp) d t = Some out \<longrightarrow> entry_durable s' d t out)"
proof -
  let ?s1 = "s\<lparr>clients := insert_or_replace (clientId payload)
                   \<lparr>cl_name = ''Client-'' @ take 8 (clientId payload), cl_last_seen_at = now\<rparr>
                   (clients s)\<rparr>"
  from ok obtain a1 a2 where
    1: "process_config (clientId payload) now (config payload) (acc0 ?s1) = Inr a1"
    and 2: "process_days (clientId payload) now (days payload) a1 = Inr a2"
    and r: "resp = \<lparr>success = (a_conflicts a2 = []), conflicts = a_conflicts a2,
             appliedConfig = a_applied_config a2, appliedDays = a_applied_days a2,
             lastModified = (if a_conflicts a2 = [] then Some now else None),
             overwrittenData = []\<rparr>"
    and s': "s' = (if a_conflicts a2 = [] then (a_db a2)\<lparr>last_server_sync_time := Some now\<rparr>
          else a_db a2)"
    by (rule sync_update_unfold)
  have "push_inv (acc0 ?s1)"
    by (simp add: push_inv_def acc0_def days_durable_def)
  from push_inv_config [OF 1 this] have "push_inv a1" .
  from push_inv_days [OF 2 this] have inv: "push_inv a2" .
  have td: "tracker_durable s' = tracker_durable (a_db a2)"
    by (rule tracker_durable_cong) (simp add: s')
  have ed: "entry_durable s' = entry_durable (a_db a2)"
    by (rule entry_durable_cong) (simp add: s')
  have wm: "last_server_sync_time (a_db a2) = last_server_sync_time s"
    using process_config_ledger [OF 1] process_days_ledger [OF 2] by (simp add: acc0_def)
  from inv td ed have dur: "list_all (tracker_durable s') (appliedConfig resp)
      \<and> (\<forall>d t out. days_get (appliedDays resp) d t = Some out \<longrightarrow> entry_durable s' d t out)"
    by (simp add: push_inv_def days_durable_def r)
  from wm dur show ?thesis by (simp add: r s')
qed


lemma ex_push_mixed_ok: "\<not> isl (sync_update ''2024-01-02T10:00:00Z'' ex_push_mixed ex_db_A)"
  by code_simp

lemma ex_push_mixed_response:
  "map_option (map entityId \<circ> conflicts)
      (response_of (sync_update ''2024-01-02T10:00:00Z'' ex_push_mixed ex_db_A)) = Some [''t1'']
   \<and> map_option (map (\<lambda>x. dict_get x ''id'' JNull) \<circ> appliedConfig)
      (response_of (sync_update ''2024-01-02T10:00:00Z'' ex_push_mixed ex_db_A))
       = Some [JStr ''t2'', JStr ''t3'', JStr ''t4'', JStr ''t5'']
   \<and> map_option (map fst \<circ> appliedDays)
      (response_of (sync_update ''2024-01-02T10:00:00Z'' ex_push_mixed ex_db_A))
       = Some [''2024-01-02'']"
  by code_simp

lemma ex_db_mixed_tables:
  "map fst (trackers ex_db_mixed) = [''t1'', ''t2'', ''t3'', ''t4'', ''t5'']
   \<and> map fst (entries ex_db_mixed) = [(''2024-01-02'', ''t1'')]
   \<and> tracker_version ex_db_mixed ''t1'' = 1"
  by code_simp

theorem watermark_iff_no_conflicts_witness:
  "map_option (map entityId \<circ> conflicts)
      (response_of (sync_update ''2024-01-02T10:00:00Z'' ex_push_mixed ex_db_A)) = Some [''t1'']
   \<and> map_option (map (\<lambda>x. dict_get x ''id'' JNull) \<circ> appliedConfig)
      (response_of (sync_update ''2024-01-02T10:00:00Z'' ex_push_mixed ex_db_A))
       = Some [JStr ''t2'', JStr ''t3'', JStr ''t4'', JStr ''t5'']
   \<and> map_option (map fst \<circ> appliedDays)
      (response_of (sync_update ''2024-01-02T10:00:00Z'' ex_push_mixed ex_db_A))
       = Some [''2024-01-02'']
   \<and> map_option lastModified
      (response_of (sync_update ''2024-01-02T10:00:00Z'' ex_push_mixed ex_db_A)) = Some None
   \<and> last_server_sync_time ex_db_mixed = last_server_sync_time ex_db_A
   \<and> map fst (trackers ex_db_mixed) = [''t1'', ''t2'', ''t3'', ''t4'', ''t5'']
   \<and> map fst (entries ex_db_mixed) = [(''2024-01-02'', ''t1'')]"
proof -
  let ?R = "sync_update ''2024-01-02T10:00:00Z'' ex_push_mixed ex_db_A"
  from ex_push_mixed_ok obtain resp s' where ok: "?R = Inr (resp, s')"
    by (cases ?R) auto
  then have s': "ex_db_mixed = s'" and r: "response_of ?R = Some resp"
    by (simp_all add: ex_db_mixed_def db_after_def response_of_def)
  from ex_push_mixed_response r have "conflicts resp \<noteq> []" by auto
  with watermark_iff_no_conflicts [OF ok]
  have "last_server_sync_time s' = last_server_sync_time ex_db_A \<and> lastModified resp = None"
    by simp
  with s' r ex_push_mixed_response ex_db_mixed_tables show ?thesis by simp
qed

section \<open>The primary keys are kept\<close>

text \<open>
  \<open>keys_unique\<close> holds of the fresh database and every committed request keeps it, so
  it holds of every database the server builds, from a fresh one or from one that already
  has rows.
\<close>

lemma tracker_item_keys_unique:
  assumes "tracker_item c n item a = Inr a'" and "keys_unique (a_db a)"
  shows "keys_unique (a_db a')"
  using assms(1)
proof (cases rule: tracker_item_cases)
  case (conflict tid)
  with assms(2) show ?thesis by (simp add: item_conflicted_def)
next
  case (applied tid)
  with assms(2) show ?thesis
    by (auto simp: tracker_apply_def Let_def keys_unique_def keys_update_where distinct_upsert
        split: if_splits)
qed

lemma entry_item_keys_unique:
  assumes "entry_item c n d t data a = Inr a'" and "keys_unique (a_db a)"
  shows "keys_unique (a_db a')"
  using assms(1)
proof (cases rule: entry_item_cases)
  case conflict
  with assms(2) show ?thesis by (simp add: item_conflicted_def)
next
  case applied
  with assms(2) show ?thesis
    by (auto simp: entry_apply_def Let_def keys_unique_def distinct_upsert split: if_splits)
qed

lemma process_config_keys_unique:
  "process_config c n items a = Inr a' \<Longrightarrow> keys_unique (a_db a) \<Longrightarrow> keys_unique (a_db a')"
proof (induction items arbitrary: a)
  case Nil
  then show ?case by simp
next
  case (Cons x items)
  from Cons.prems(1) obtain a1 where 1: "tracker_item c n x a = Inr a1"
    and 2: "process_config c n items a1 = Inr a'"
    by (auto split: sum.splits)
  from tracker_item_keys_unique [OF 1 Cons.prems(2)] show ?case by (rule Cons.IH [OF 2])
qed

lemma process_trackers_map_keys_unique:
  "process_trackers_map c n d m a = Inr a' \<Longrightarrow> keys_unique (a_db a) \<Longrightarrow>
   keys_unique (a_db a')"
proof (induction m arbitrary: a)
  case Nil
  then show ?case by simp
next
  case (Cons x m)
  obtain t data where x: "x = (t, data)" by (cases x)
  with Cons.prems(1) obtain a1 where 1: "entry_item c n d t data a = Inr a1"
    and 2: "process_trackers_map c n d m a1 = Inr a'"
    by (auto split: sum.splits)
  from entry_item_keys_unique [OF 1 Cons.prems(2)] show ?case by (rule Cons.IH [OF 2])
qed

lemma process_days_keys_unique:
  "process_days c n ds a = Inr a' \<Longrightarrow> keys_unique (a_db a) \<Longrightarrow> keys_unique (a_db a')"
proof (induction ds arbitrary: a)
  case Nil
  then show ?case by simp
next
  case (Cons x ds)
  obtain d m where x: "x = (d, m)" by (cases x)
  define a0 where "a0 = (if d \<notin> fst ` set (a_applied_days a)
                then a\<lparr>a_applied_days := AList.update d [] (a_applied_days a)\<rparr> else a)"
  from Cons.prems(2) have k0: "keys_unique (a_db a0)" by (simp add: a0_def)
  from Cons.prems(1) x obtain a1 where 1: "process_trackers_map c n d m a0 = Inr a1"
    and 2: "process_days c n ds a1 = Inr a'"
    by (auto simp: Let_def a0_def split: sum.splits)
  from process_trackers_map_keys_unique [OF 1 k0] show ?case by (rule Cons.IH [OF 2])
qed

lemma commits_keys_unique: "commits s s' \<Longrightarrow> keys_unique s \<Longrightarrow> keys_unique s'"
proof (induction rule: commits.induct)
  case (commit_register s now client_id client_name)
  then show ?case by (simp add: register_client_def keys_unique_def)
next
  case (commit_update now payload s resp s')
  let ?s1 = "s\<lparr>clients := insert_or_replace (clientId payload)
                   \<lparr>cl_name = ''Client-'' @ take 8 (clientId payload), cl_last_seen_at = now\<rparr>
                   (clients s)\<rparr>"
  from commit_update(1) obtain a1 a2 where
    1: "process_config (clientId payload) now (config payload) (acc0 ?s1) = Inr a1"
    and 2: "process_days (clientId payload) now (days payload) a1 = Inr a2"
    and s': "s' = (if a_conflicts a2 = [] then (a_db a2)\<lparr>last_server_sync_time := Some now\<rparr>
          else a_db a2)"
    by (rule sync_update_unfold)
  from commit_update(2) have "keys_unique (a_db (acc0 ?s1))"
    by (simp add: keys_unique_def acc0_def)
  from process_config_keys_unique [OF 1 this] have "keys_unique (a_db a1)" .
  from process_days_keys_unique [OF 2 this] show ?case
    by (simp add: s' keys_unique_def)
next
  case (commit_resolve now entity_type entity_id resolution client_id client_data s resp s')
  from commit_resolve(1) obtain s1 where s1: "s' = log_resolution now entity_type entity_id
        resolution client_id client_data s1"
    and f: "s1 = s \<or> (\<exists>d. force_apply now entity_type entity_id client_id d s = Inr s1)"
    by (auto simp: resolve_conflict_def split: option.splits sum.splits if_splits)
  from f commit_resolve(2) have "keys_unique s1"
    by (auto simp: force_apply_def resolve_tracker_def resolve_entry_def Let_def keys_unique_def
        distinct_insert_or_replace split: if_splits list.splits)
  then show ?case by (simp add: s1 log_resolution_def keys_unique_def)
qed

lemma keys_unique_init: "keys_unique init_database"
  by (simp add: keys_unique_def init_database_def)

lemma keys_unique_invariant:
  "rtranclp commits s s' \<Longrightarrow> keys_unique s \<Longrightarrow> keys_unique s'"
  by (induction rule: rtranclp_induct) (auto intro: commits_keys_unique)

section \<open>Extension fields of a tracker\<close>

lemma extension_key_not_excluded: "extension_key k \<Longrightarrow> k \<notin> set excluded_keys"
  unfolding extension_key_def excluded_keys_def
  by (cases k) auto

lemma map_of_meta_of:
  assumes "distinct (map fst item)" and "(k, v) \<in> set item" and "k \<notin> set excluded_keys"
  shows "map_of (meta_of item) k = Some v"
proof -
  from assms(1) have "distinct (map fst (meta_of item))"
    by (simp add: meta_of_def distinct_map_filter)
  moreover from assms(2,3) have "(k, v) \<in> set (meta_of item)"
    by (simp add: meta_of_def)
  ultimately show ?thesis by (rule map_of_is_SomeI)
qed

lemma meta_of_keys: "k \<in> set excluded_keys \<Longrightarrow> map_of (meta_of item) k = None"
  by (auto simp: meta_of_def map_of_eq_None_iff)

lemma tracker_out_meta:
  assumes meta: "t_meta_json row = Some (meta_of item)"
    and dist: "distinct (map fst item)"
  shows "dict_get (tracker_out tid row) ''id'' JNull = JStr tid"
    and "(k, v) \<in> set item \<Longrightarrow> k \<notin> set excluded_keys \<Longrightarrow>
         map_of (tracker_out tid row) k = Some v"
proof -
  from dist have d: "distinct (map fst (meta_of item))"
    by (simp add: meta_of_def distinct_map_filter)
  have "map_of (meta_of item) ''id'' = None"
    by (rule meta_of_keys) (simp add: excluded_keys_def)
  then show "dict_get (tracker_out tid row) ''id'' JNull = JStr tid"
    by (simp add: tracker_out_def meta dict_get_def map_of_dict_update [OF d])
  show "map_of (tracker_out tid row) k = Some v"
    if "(k, v) \<in> set item" "k \<notin> set excluded_keys"
    using map_of_meta_of [OF dist that]
    by (simp add: tracker_out_def meta map_of_dict_update [OF d])
qed

lemma tracker_item_other:
  assumes step: "tracker_item c n x a = Inr a'"
    and other: "dict_get x ''id'' JNull \<noteq> JStr tid"
  shows "map_of (trackers (a_db a')) tid = map_of (trackers (a_db a)) tid"
  using step
proof (cases rule: tracker_item_cases)
  case (conflict tid')
  then show ?thesis by (simp add: item_conflicted_def)
next
  case (applied tid')
  with other have "tid \<noteq> tid'" by auto
  then show ?thesis by (rule tracker_apply_tables(6) [OF applied(2)])
qed

lemma process_config_other:
  assumes "process_config c n items a = Inr a'"
    and "\<forall>x \<in> set items. dict_get x ''id'' JNull \<noteq> JStr tid"
  shows "map_of (trackers (a_db a')) tid = map_of (trackers (a_db a)) tid"
  using assms
proof (induction items arbitrary: a)
  case Nil
  then show ?case by simp
next
  case (Cons x items)
  from Cons.prems(1) obtain a1 where 1: "tracker_item c n x a = Inr a1"
    and 2: "process_config c n items a1 = Inr a'"
    by (auto split: sum.splits)
  from Cons.prems(2) have o: "dict_get x ''id'' JNull \<noteq> JStr tid"
    and os: "\<forall>x \<in> set items. dict_get x ''id'' JNull \<noteq> JStr tid" by simp_all
  from Cons.IH [OF 2 os] tracker_item_other [OF 1 o] show ?case by simp
qed

lemma process_config_append:
  "process_config c n (pre @ post) a = Inr a' \<Longrightarrow>
   \<exists>a1. process_config c n pre a = Inr a1 \<and> process_config c n post a1 = Inr a'"
proof (induction pre arbitrary: a)
  case Nil
  then show ?case by simp
next
  case (Cons x pre)
  from Cons.prems obtain b where 1: "tracker_item c n x a = Inr b"
    and 2: "process_config c n (pre @ post) b = Inr a'"
    by (auto split: sum.splits)
  from Cons.IH [OF 2] 1 show ?case by simp
qed

lemma pushed_row_stored:
  assumes ok: "sync_update now payload s = Inr (resp, s')"
    and cfg: "config payload = pre @ item # post"
    and id: "dict_get item ''id'' JNull = JStr tid"
    and others: "\<forall>x \<in> set (pre @ post). dict_get x ''id'' JNull \<noteq> JStr tid"
    and cbv: "as_int (dict_get item ''_baseVersion'' (JInt 0)) = Some b"
    and gate: "map_of (trackers s) tid = None \<or> tracker_version s tid \<le> b"
    and live: "\<not> truthy (dict_get item ''_deleted'' (JBool False))"
  shows "map_of (trackers s') tid =
     Some \<lparr>t_name = dict_get item ''name'' JNull,
           t_category = dict_get item ''category'' (JStr []),
           t_type = dict_get item ''type'' (JStr ''simple''),
           t_meta_json = Some (meta_of item),
           t_version = tracker_version s tid + 1,
           t_last_modified_by = Some (clientId payload), t_last_modified_at = Some now,
           t_deleted = 0\<rparr>"
proof -
  let ?c = "clientId payload"
  let ?s1 = "s\<lparr>clients := insert_or_replace ?c
                   \<lparr>cl_name = ''Client-'' @ take 8 ?c, cl_last_seen_at = now\<rparr>
                   (clients s)\<rparr>"
  from ok obtain a1 a2 where
    1: "process_config ?c now (config payload) (acc0 ?s1) = Inr a1"
    and 2: "process_days ?c now (days payload) a1 = Inr a2"
    and s': "s' = (if a_conflicts a2 = [] then (a_db a2)\<lparr>last_server_sync_time := Some now\<rparr>
          else a_db a2)"
    by (rule sync_update_unfold)
  from 1 cfg obtain p1 where p1: "process_config ?c now pre (acc0 ?s1) = Inr p1"
    and rest: "process_config ?c now (item # post) p1 = Inr a1"
    using process_config_append [of ?c now pre "item # post" "acc0 ?s1" a1] by auto
  from rest obtain p2 where p2: "tracker_item ?c now item p1 = Inr p2"
    and p3: "process_config ?c now post p2 = Inr a1"
    by (auto split: sum.splits)
  from others have o1: "\<forall>x \<in> set pre. dict_get x ''id'' JNull \<noteq> JStr tid"
    and o2: "\<forall>x \<in> set post. dict_get x ''id'' JNull \<noteq> JStr tid" by auto
  have r1: "map_of (trackers (a_db p1)) tid = map_of (trackers s) tid"
    using process_config_other [OF p1 o1] by (simp add: acc0_def)
  then have v1: "tracker_version (a_db p1) tid = tracker_version s tid"
    by (simp add: tracker_version_def)
  from gate r1 v1 have "tracker_item ?c now item p1 =
      tracker_apply ?c now item tid (tracker_version (a_db p1) tid) p1"
    by (auto simp: tracker_item_gate [OF id cbv] tracker_version_def split: option.splits)
  with p2 have ap: "tracker_apply ?c now item tid (tracker_version (a_db p1) tid) p1 = Inr p2"
    by simp
  from tracker_apply_tables(5) [OF ap] live v1
  have "map_of (trackers (a_db p2)) tid =
     Some \<lparr>t_name = dict_get item ''name'' JNull,
           t_category = dict_get item ''category'' (JStr []),
           t_type = dict_get item ''type'' (JStr ''simple''),
           t_meta_json = Some (meta_of item),
           t_version = tracker_version s tid + 1,
           t_last_modified_by = Some ?c, t_last_modified_at = Some now,
           t_deleted = 0\<rparr>"
    by simp
  moreover have "map_of (trackers (a_db a1)) tid = map_of (trackers (a_db p2)) tid"
    by (rule process_config_other [OF p3 o2])
  moreover have "trackers (a_db a2) = trackers (a_db a1)"
    using process_days_ledger [OF 2] by simp
  moreover have "trackers s' = trackers (a_db a2)" by (simp add: s')
  ultimately show ?thesis by simp
qed

text \<open>
  Claim C7. A committed push holds a tracker item for the id \<open>tid\<close> that is not a
  delete, is the push's only item for \<open>tid\<close> and passes the version test on the
  database the push met (no row, or a stored version of at most its integer base
  version): the item is written. The row of \<open>tid\<close> in the committed database then holds,
  in \<^verbatim>\<open>meta_json\<close>, every field of the item whose key is an extension key (none of
  \<^verbatim>\<open>id\<close>, \<^verbatim>\<open>name\<close>, \<^verbatim>\<open>category\<close>, \<^verbatim>\<open>type\<close>, no leading underscore) with the value the
  client sent. The full snapshot of that database returns the tracker as one flat dict
  with its id and every one of these fields unchanged, and so does a delta snapshot taken
  since a time before the push.
\<close>

theorem extension_fields_round_trip:
  assumes ok: "sync_update now payload s = Inr (resp, s')"
    and cfg: "config payload = pre @ item # post"
    and id: "dict_get item ''id'' JNull = JStr tid"
    and others: "\<forall>x \<in> set (pre @ post). dict_get x ''id'' JNull \<noteq> JStr tid"
    and cbv: "as_int (dict_get item ''_baseVersion'' (JInt 0)) = Some b"
    and gate: "map_of (trackers s) tid = None \<or> tracker_version s tid \<le> b"
    and live: "\<not> truthy (dict_get item ''_deleted'' (JBool False))"
    and dict: "distinct (map fst item)"
  shows "\<exists>row. map_of (trackers s') tid = Some row
     \<and> t_meta_json row = Some (meta_of item)
     \<and> list_all (\<lambda>kv. extension_key (fst kv) \<longrightarrow> map_of (meta_of item) (fst kv) = Some (snd kv)) item
     \<and> tracker_out tid row \<in> set (snap_config (sync_full now' d7 s'))
     \<and> (since < now \<longrightarrow> tracker_out tid row \<in> set (snap_config (sync_delta now' d7 since cid s')))
     \<and> dict_get (tracker_out tid row) ''id'' JNull = JStr tid
     \<and> list_all (\<lambda>kv. extension_key (fst kv) \<longrightarrow> map_of (tracker_out tid row) (fst kv) = Some (snd kv)) item"
proof -
  let ?row = "\<lparr>t_name = dict_get item ''name'' JNull,
           t_category = dict_get item ''category'' (JStr []),
           t_type = dict_get item ''type'' (JStr ''simple''),
           t_meta_json = Some (meta_of item),
           t_version = tracker_version s tid + 1,
           t_last_modified_by = Some (clientId payload), t_last_modified_at = Some now,
           t_deleted = 0\<rparr>"
  have row: "map_of (trackers s') tid = Some ?row"
    by (rule pushed_row_stored [OF ok cfg id others cbv gate live])
  then have mem: "(tid, ?row) \<in> set (trackers s')" by (rule map_of_SomeD)
  have meta: "t_meta_json ?row = Some (meta_of item)" by simp
  have full: "tracker_out tid ?row \<in> set (snap_config (sync_full now' d7 s'))"
    using mem by (force simp: sync_full_def Let_def)
  have delta: "tracker_out tid ?row \<in> set (snap_config (sync_delta now' d7 since cid s'))"
    if "since < now"
    using mem that by (force simp: snap_config_delta modified_since_def)
  have stored: "list_all (\<lambda>kv. extension_key (fst kv) \<longrightarrow>
      map_of (meta_of item) (fst kv) = Some (snd kv)) item"
    using map_of_meta_of [OF dict] extension_key_not_excluded
    by (auto simp: list_all_iff)
  have fields: "list_all (\<lambda>kv. extension_key (fst kv) \<longrightarrow>
      map_of (tracker_out tid ?row) (fst kv) = Some (snd kv)) item"
    using tracker_out_meta(2) [OF meta dict] extension_key_not_excluded
    by (auto simp: list_all_iff)
  from row meta stored full delta tracker_out_meta(1) [OF meta dict] fields
  show ?thesis by blast
qed


lemma ex_push_A_ok: "\<not> isl (sync_update ''2024-01-01T10:00:00Z'' ex_push_A init_database)"
  by code_simp

lemma ex_push_A_config: "config ex_push_A = [] @ ex_item_A # []"
  by (simp add: ex_push_A_def)

lemma ex_item_A_facts:
  "dict_get ex_item_A ''id'' JNull = JStr ''t1''"
  "as_int (dict_get ex_item_A ''_baseVersion'' (JInt 0)) = Some 0"
  "\<not> truthy (dict_get ex_item_A ''_deleted'' (JBool False))"
  "distinct (map fst ex_item_A)"
  "(''goal'', JInt 10) \<in> set ex_item_A"
  "(''unit'', JStr ''km'') \<in> set ex_item_A"
  by (simp_all add: ex_item_A_def dict_get_def)

lemma ex_extension_keys: "extension_key ''goal''" "extension_key ''unit''"
  by (simp_all add: extension_key_def)

lemma ex_t1_absent: "map_of (trackers init_database) ''t1'' = None"
  by (simp add: init_database_def)

lemma ex_since_before: "''2023-12-31T00:00:00Z'' < ''2024-01-01T10:00:00Z''"
  by simp

theorem extension_fields_round_trip_witness:
  "\<not> isl (sync_update ''2024-01-01T10:00:00Z'' ex_push_A init_database)
   \<and> config ex_push_A = [] @ ex_item_A # []
   \<and> dict_get ex_item_A ''id'' JNull = JStr ''t1''
   \<and> as_int (dict_get ex_item_A ''_baseVersion'' (JInt 0)) = Some 0
   \<and> map_of (trackers init_database) ''t1'' = None
   \<and> \<not> truthy (dict_get ex_item_A ''_deleted'' (JBool False))
   \<and> distinct (map fst ex_item_A)
   \<and> (''goal'', JInt 10) \<in> set ex_item_A \<and> extension_key ''goal''
   \<and> (''unit'', JStr ''km'') \<in> set ex_item_A \<and> extension_key ''unit''
   \<and> ''2023-12-31T00:00:00Z'' < ''2024-01-01T10:00:00Z''
   \<and> (\<exists>x. x \<in> set (snap_config (sync_full ''2024-01-01T11:00:00Z'' ''2023-12-25'' ex_db_A))
          \<and> x \<in> set (snap_config (sync_delta ''2024-01-01T11:00:00Z'' ''2023-12-25''
                                    ''2023-12-31T00:00:00Z'' ''B'' ex_db_A))
          \<and> dict_get x ''id'' JNull = JStr ''t1''
          \<and> map_of x ''goal'' = Some (JInt 10)
          \<and> map_of x ''unit'' = Some (JStr ''km''))"
proof -
  let ?R = "sync_update ''2024-01-01T10:00:00Z'' ex_push_A init_database"
  from ex_push_A_ok obtain resp s' where ok: "?R = Inr (resp, s')"
    by (cases ?R) auto
  then have s': "ex_db_A = s'"
    by (simp add: ex_db_A_def db_after_def)
  have others: "\<forall>x \<in> set ([] @ []). dict_get x ''id'' JNull \<noteq> JStr ''t1''" by simp
  have gate: "map_of (trackers init_database) ''t1'' = None
      \<or> tracker_version init_database ''t1'' \<le> 0"
    using ex_t1_absent by simp
  from extension_fields_round_trip [OF ok ex_push_A_config ex_item_A_facts(1) others
      ex_item_A_facts(2) gate ex_item_A_facts(3,4),
      where now' = "''2024-01-01T11:00:00Z''" and ?d7.0 = "''2023-12-25''"
        and since = "''2023-12-31T00:00:00Z''" and cid = "''B''"]
  obtain row where
    full: "tracker_out ''t1'' row
        \<in> set (snap_config (sync_full ''2024-01-01T11:00:00Z'' ''2023-12-25'' s'))"
    and delta: "''2023-12-31T00:00:00Z'' < ''2024-01-01T10:00:00Z'' \<longrightarrow>
        tracker_out ''t1'' row
        \<in> set (snap_config (sync_delta ''2024-01-01T11:00:00Z'' ''2023-12-25''
                                ''2023-12-31T00:00:00Z'' ''B'' s'))"
    and ident: "dict_get (tracker_out ''t1'' row) ''id'' JNull = JStr ''t1''"
    and fields: "list_all (\<lambda>kv. extension_key (fst kv) \<longrightarrow>
        map_of (tracker_out ''t1'' row) (fst kv) = Some (snd kv)) ex_item_A"
    by blast
  from fields ex_item_A_facts(5,6) ex_extension_keys
  have "map_of (tracker_out ''t1'' row) ''goal'' = Some (JInt 10)"
    and "map_of (tracker_out ''t1'' row) ''unit'' = Some (JStr ''km'')"
    by (auto simp: list_all_iff)
  with full delta ident ex_since_before s'
  have "\<exists>x. x \<in> set (snap_config (sync_full ''2024-01-01T11:00:00Z'' ''2023-12-25'' ex_db_A))
          \<and> x \<in> set (snap_config (sync_delta ''2024-01-01T11:00:00Z'' ''2023-12-25''
                                    ''2023-12-31T00:00:00Z'' ''B'' ex_db_A))
          \<and> dict_get x ''id'' JNull = JStr ''t1''
          \<and> map_of x ''goal'' = Some (JInt 10)
          \<and> map_of x ''unit'' = Some (JStr ''km'')"
    by blast
  with ex_push_A_ok ex_push_A_config ex_item_A_facts ex_extension_keys ex_t1_absent
    ex_since_before
  show ?thesis by blast
qed

section \<open>Versions over any sequence of requests\<close>

lemma grows_trans:
  assumes "grows t1 t2 ver" and "grows t2 t3 ver"
  shows "grows t1 t3 ver"
  unfolding grows_def
proof
  fix k
  from assms(1) have 1: "case map_of t1 k of
            None \<Rightarrow> (case map_of t2 k of None \<Rightarrow> True | Some r' \<Rightarrow> 1 \<le> ver r')
          | Some r \<Rightarrow> (case map_of t2 k of None \<Rightarrow> False | Some r' \<Rightarrow> ver r \<le> ver r')"
    by (simp add: grows_def)
  from assms(2) have 2: "case map_of t2 k of
            None \<Rightarrow> (case map_of t3 k of None \<Rightarrow> True | Some r' \<Rightarrow> 1 \<le> ver r')
          | Some r \<Rightarrow> (case map_of t3 k of None \<Rightarrow> False | Some r' \<Rightarrow> ver r \<le> ver r')"
    by (simp add: grows_def)
  from 1 2 show "case map_of t1 k of
            None \<Rightarrow> (case map_of t3 k of None \<Rightarrow> True | Some r' \<Rightarrow> 1 \<le> ver r')
          | Some r \<Rightarrow> (case map_of t3 k of None \<Rightarrow> False | Some r' \<Rightarrow> ver r \<le> ver r')"
    by (auto split: option.splits)
qed

lemma grows_eq: "tab' = tab \<Longrightarrow> grows tab tab' ver"
  by (simp add: grows_refl)

lemma grows_put:
  assumes "map_of tab' = (map_of tab)(k \<mapsto> r)"
    and "ver r = (case map_of tab k of None \<Rightarrow> 0 | Some r0 \<Rightarrow> ver r0) + 1"
  shows "grows tab tab' ver"
  using assms by (auto simp: grows_def split: option.splits)

lemma entry_apply_grows:
  assumes ap: "entry_apply c n d t data (entry_version (a_db a) d t) a = Inr a'"
  shows "grows (entries (a_db a)) (entries (a_db a')) e_version"
  using entry_apply_tables(5) [OF ap]
  by (rule grows_put) (simp add: entry_version_def)

lemma entry_item_grows:
  assumes "entry_item c n d t data a = Inr a'"
  shows "grows (entries (a_db a)) (entries (a_db a')) e_version"
  using assms
proof (cases rule: entry_item_cases)
  case conflict
  then show ?thesis by (simp add: item_conflicted_def grows_refl)
next
  case applied
  then show ?thesis by (rule entry_apply_grows)
qed

lemma process_config_grows:
  "process_config c n items a = Inr a' \<Longrightarrow>
   grows (trackers (a_db a)) (trackers (a_db a')) t_version"
proof (induction items arbitrary: a)
  case Nil
  then show ?case by (simp add: grows_refl)
next
  case (Cons x items)
  from Cons.prems obtain a1 where 1: "tracker_item c n x a = Inr a1"
    and 2: "process_config c n items a1 = Inr a'"
    by (auto split: sum.splits)
  from tracker_item_grows [OF 1] Cons.IH [OF 2] show ?case by (rule grows_trans)
qed

lemma process_trackers_map_grows:
  "process_trackers_map c n d m a = Inr a' \<Longrightarrow>
   grows (entries (a_db a)) (entries (a_db a')) e_version"
proof (induction m arbitrary: a)
  case Nil
  then show ?case by (simp add: grows_refl)
next
  case (Cons x m)
  obtain t data where x: "x = (t, data)" by (cases x)
  with Cons.prems obtain a1 where 1: "entry_item c n d t data a = Inr a1"
    and 2: "process_trackers_map c n d m a1 = Inr a'"
    by (auto split: sum.splits)
  from entry_item_grows [OF 1] Cons.IH [OF 2] show ?case by (rule grows_trans)
qed

lemma process_days_grows:
  "process_days c n ds a = Inr a' \<Longrightarrow>
   grows (entries (a_db a)) (entries (a_db a')) e_version"
proof (induction ds arbitrary: a)
  case Nil
  then show ?case by (simp add: grows_refl)
next
  case (Cons x ds)
  obtain d m where x: "x = (d, m)" by (cases x)
  define a0 where "a0 = (if d \<notin> fst ` set (a_applied_days a)
                then a\<lparr>a_applied_days := AList.update d [] (a_applied_days a)\<rparr> else a)"
  have db0: "a_db a0 = a_db a" by (simp add: a0_def)
  from Cons.prems x obtain a1 where 1: "process_trackers_map c n d m a0 = Inr a1"
    and 2: "process_days c n ds a1 = Inr a'"
    by (auto simp: Let_def a0_def split: sum.splits)
  from process_trackers_map_grows [OF 1] Cons.IH [OF 2] db0 show ?case
    by (auto intro: grows_trans)
qed

lemma sync_update_grows:
  assumes ok: "sync_update now payload s = Inr (resp, s')"
  shows "grows (trackers s) (trackers s') t_version \<and> grows (entries s) (entries s') e_version"
proof -
  let ?s1 = "s\<lparr>clients := insert_or_replace (clientId payload)
                   \<lparr>cl_name = ''Client-'' @ take 8 (clientId payload), cl_last_seen_at = now\<rparr>
                   (clients s)\<rparr>"
  from ok obtain a1 a2 where
    1: "process_config (clientId payload) now (config payload) (acc0 ?s1) = Inr a1"
    and 2: "process_days (clientId payload) now (days payload) a1 = Inr a2"
    and s': "s' = (if a_conflicts a2 = [] then (a_db a2)\<lparr>last_server_sync_time := Some now\<rparr>
          else a_db a2)"
    by (rule sync_update_unfold)
  have t: "trackers s' = trackers (a_db a1)"
    using process_days_ledger [OF 2] by (simp add: s')
  have e: "entries (a_db a1) = entries s"
    using process_config_ledger [OF 1] by (simp add: acc0_def)
  have "grows (trackers s) (trackers s') t_version"
    using process_config_grows [OF 1] by (simp add: t acc0_def)
  moreover have "grows (entries s) (entries s') e_version"
    using process_days_grows [OF 2] by (simp add: e s')
  ultimately show ?thesis ..
qed

lemma force_apply_grows:
  assumes "force_apply n et ei c cd s = Inr s'"
  shows "grows (trackers s) (trackers s') t_version \<and> grows (entries s) (entries s') e_version"
proof -
  consider (tracker) "et = ''tracker''" "resolve_tracker n ei c cd s = Inr s'"
    | (entry) "et = ''entry''" "resolve_entry n ei c cd s = Inr s'"
    | (other) "s' = s"
    using assms by (auto simp: force_apply_def split: if_splits)
  then show ?thesis
  proof cases
    case tracker
    then have "grows (trackers s) (trackers s') t_version"
      by (auto simp: resolve_tracker_def Let_def map_of_insert_or_replace
          intro!: grows_put split: if_splits)
    moreover from tracker have "entries s' = entries s"
      by (simp add: resolve_tracker_version)
    ultimately show ?thesis by (simp add: grows_refl)
  next
    case entry
    then have "grows (entries s) (entries s') e_version"
      by (auto simp: resolve_entry_def Let_def map_of_insert_or_replace
          intro!: grows_put split: if_splits list.splits)
    moreover from entry have "trackers s' = trackers s"
      using resolve_entry_version by blast
    ultimately show ?thesis by (simp add: grows_refl)
  next
    case other
    then show ?thesis by (simp add: grows_refl)
  qed
qed

lemma resolve_conflict_grows:
  assumes "resolve_conflict n et ei r c cd s = Inr (resp, s')"
  shows "grows (trackers s) (trackers s') t_version \<and> grows (entries s) (entries s') e_version"
proof -
  from assms obtain s1 where s1: "s' = log_resolution n et ei r c cd s1"
    and f: "s1 = s \<or> (\<exists>d. force_apply n et ei c d s = Inr s1)"
    by (auto simp: resolve_conflict_def split: option.splits sum.splits if_splits)
  from f have "grows (trackers s) (trackers s1) t_version \<and> grows (entries s) (entries s1) e_version"
    by (auto simp: grows_refl dest: force_apply_grows)
  then show ?thesis by (simp add: s1 log_resolution_def)
qed

lemma commits_grows:
  "commits s s' \<Longrightarrow>
   grows (trackers s) (trackers s') t_version \<and> grows (entries s) (entries s') e_version"
proof (induction rule: commits.induct)
  case (commit_register s now client_id client_name)
  show ?case by (simp add: register_client_def grows_refl)
next
  case (commit_update now payload s resp s')
  then show ?case by (rule sync_update_grows)
next
  case (commit_resolve now entity_type entity_id resolution client_id client_data s resp s')
  then show ?case by (rule resolve_conflict_grows)
qed

text \<open>
  Over any sequence of committed requests (\<^verbatim>\<open>register_client\<close>, \<^verbatim>\<open>sync_update\<close>,
  \<^verbatim>\<open>resolve_conflict\<close>) no row of \<^verbatim>\<open>trackers\<close> or \<^verbatim>\<open>entries\<close> disappears, no stored
  version decreases, and a row that appears has a version of at least 1.
\<close>

theorem versions_never_decrease:
  "rtranclp commits s s' \<Longrightarrow>
   grows (trackers s) (trackers s') t_version \<and> grows (entries s) (entries s') e_version"
proof (induction rule: rtranclp_induct)
  case base
  show ?case by (simp add: grows_refl)
next
  case (step s1 s2)
  from step.IH commits_grows [OF step.hyps(2)] show ?case
    by (auto intro: grows_trans)
qed

lemma commits_after_update:
  "\<not> isl (sync_update n p s) \<Longrightarrow> commits s (db_after (sync_update n p s) s)"
  by (cases "sync_update n p s") (auto simp: db_after_def intro: commit_update)

lemma commits_after_resolve:
  "\<not> isl (resolve_conflict n et ei r c cd s) \<Longrightarrow>
   commits s (db_after (resolve_conflict n et ei r c cd s) s)"
  by (cases "resolve_conflict n et ei r c cd s") (auto simp: db_after_def intro: commit_resolve)

lemma ex_commits_chain: "rtranclp commits ex_db_A ex_db_RR"
proof -
  have 1: "commits ex_db_A ex_db_B"
    unfolding ex_db_B_def by (rule commits_after_update) code_simp
  have 2: "commits ex_db_B ex_db_R"
    unfolding ex_db_R_def by (rule commits_after_resolve) code_simp
  have 3: "commits ex_db_R ex_db_RR"
    unfolding ex_db_RR_def by (rule commits_after_resolve) code_simp
  from 1 2 3 show ?thesis by (meson rtranclp.rtrancl_into_rtrancl rtranclp.rtrancl_refl)
qed

theorem versions_never_decrease_witness:
  "rtranclp commits ex_db_A ex_db_RR
   \<and> grows (trackers ex_db_A) (trackers ex_db_RR) t_version
   \<and> grows (entries ex_db_A) (entries ex_db_RR) e_version"
  using versions_never_decrease [OF ex_commits_chain] ex_commits_chain by simp

text \<open>
  Every write that stores a row adds exactly 1 to the stored version of its key (0 when
  there was no row): a turn of a loop of \<^verbatim>\<open>sync_update\<close> that does not end in a conflict,
  for a tracker upsert, for the soft-delete of a tracker that has a row and for an entry;
  and the forced writes of \<^verbatim>\<open>resolve_conflict\<close>.
\<close>

theorem accepted_write_increments:
  "(tracker_item c n item a = Inr a' \<and> dict_get item ''id'' JNull = JStr tid
      \<and> \<not> item_conflicted a a'
      \<and> (map_of (trackers (a_db a)) tid \<noteq> None
          \<or> \<not> truthy (dict_get item ''_deleted'' (JBool False)))
     \<longrightarrow> tracker_version (a_db a') tid = tracker_version (a_db a) tid + 1)
   \<and> (entry_item c n d t data a = Inr a' \<and> \<not> item_conflicted a a'
     \<longrightarrow> entry_version (a_db a') d t = entry_version (a_db a) d t + 1)
   \<and> (resolve_tracker n tid c cd s = Inr s'
     \<longrightarrow> tracker_version s' tid = tracker_version s tid + 1)
   \<and> (resolve_entry n ei c cd s = Inr s'
     \<longrightarrow> (\<exists>d t. split_on CHR ''|'' ei = [d, t]
            \<and> entry_version s' d t = entry_version s d t + 1))"
proof (intro conjI impI)
  assume h: "tracker_item c n item a = Inr a' \<and> dict_get item ''id'' JNull = JStr tid
      \<and> \<not> item_conflicted a a'
      \<and> (map_of (trackers (a_db a)) tid \<noteq> None
          \<or> \<not> truthy (dict_get item ''_deleted'' (JBool False)))"
  then have step: "tracker_item c n item a = Inr a'" by simp
  from step show "tracker_version (a_db a') tid = tracker_version (a_db a) tid + 1"
  proof (cases rule: tracker_item_cases)
    case (conflict tid')
    with h show ?thesis by simp
  next
    case (applied tid')
    with h have "tid' = tid" by simp
    with tracker_apply_tables(5) [OF applied(2)] h show ?thesis
      by (auto simp: tracker_version_def split: option.splits)
  qed
next
  assume h: "entry_item c n d t data a = Inr a' \<and> \<not> item_conflicted a a'"
  then have step: "entry_item c n d t data a = Inr a'" by simp
  from step show "entry_version (a_db a') d t = entry_version (a_db a) d t + 1"
  proof (cases rule: entry_item_cases)
    case conflict
    with h show ?thesis by simp
  next
    case applied
    from entry_apply_applied [OF applied] show ?thesis by (simp add: entry_applied_def)
  qed
next
  assume "resolve_tracker n tid c cd s = Inr s'"
  then show "tracker_version s' tid = tracker_version s tid + 1"
    by (simp add: resolve_tracker_version)
next
  assume "resolve_entry n ei c cd s = Inr s'"
  from resolve_entry_version [OF this]
  show "\<exists>d t. split_on CHR ''|'' ei = [d, t]
            \<and> entry_version s' d t = entry_version s d t + 1"
    by blast
qed

lemma ex_tracker_turn:
  "case tracker_item ''A'' ''2024-01-01T10:00:00Z'' ex_item_A (acc0 init_database) of
     Inl e \<Rightarrow> False
   | Inr a' \<Rightarrow> \<not> item_conflicted (acc0 init_database) a'"
  by code_simp

lemma ex_entry_turn:
  "case entry_item ''A'' ''2024-01-01T10:00:00Z'' ''2024-01-01'' ''t1'' ex_data_9
          (acc0 init_database) of
     Inl e \<Rightarrow> False
   | Inr a' \<Rightarrow> \<not> item_conflicted (acc0 init_database) a'"
  by code_simp

lemma ex_resolve_tracker_ok:
  "\<not> isl (resolve_tracker ''2024-01-03T10:00:00Z'' ''t1'' ''B'' ex_item_B ex_db_B)"
  by code_simp

lemma ex_resolve_entry_ok:
  "\<not> isl (resolve_entry ''2024-03-06T10:00:00Z'' ''2024-03-05|t1'' ''B'' ex_data_9 ex_db_delta)"
  by code_simp

lemma ex_split: "split_on CHR ''|'' ''2024-03-05|t1'' = [''2024-03-05'', ''t1'']"
  by code_simp

theorem accepted_write_increments_witness:
  "(\<exists>a'. tracker_item ''A'' ''2024-01-01T10:00:00Z'' ex_item_A (acc0 init_database) = Inr a'
        \<and> dict_get ex_item_A ''id'' JNull = JStr ''t1''
        \<and> \<not> item_conflicted (acc0 init_database) a'
        \<and> \<not> truthy (dict_get ex_item_A ''_deleted'' (JBool False))
        \<and> tracker_version (a_db a') ''t1''
            = tracker_version (a_db (acc0 init_database)) ''t1'' + 1)
   \<and> (\<exists>a'. entry_item ''A'' ''2024-01-01T10:00:00Z'' ''2024-01-01'' ''t1'' ex_data_9
              (acc0 init_database) = Inr a'
        \<and> \<not> item_conflicted (acc0 init_database) a'
        \<and> entry_version (a_db a') ''2024-01-01'' ''t1''
            = entry_version (a_db (acc0 init_database)) ''2024-01-01'' ''t1'' + 1)
   \<and> (\<exists>s'. resolve_tracker ''2024-01-03T10:00:00Z'' ''t1'' ''B'' ex_item_B ex_db_B = Inr s'
        \<and> tracker_version s' ''t1'' = tracker_version ex_db_B ''t1'' + 1)
   \<and> (\<exists>s'. resolve_entry ''2024-03-06T10:00:00Z'' ''2024-03-05|t1'' ''B'' ex_data_9 ex_db_delta
              = Inr s'
        \<and> entry_version s' ''2024-03-05'' ''t1''
            = entry_version ex_db_delta ''2024-03-05'' ''t1'' + 1)"
proof -
  note inst = accepted_write_increments
  from ex_tracker_turn obtain a1 where
    t: "tracker_item ''A'' ''2024-01-01T10:00:00Z'' ex_item_A (acc0 init_database) = Inr a1"
    and tc: "\<not> item_conflicted (acc0 init_database) a1"
    by (auto split: sum.splits)
  from inst [where c = "''A''" and n = "''2024-01-01T10:00:00Z''" and item = ex_item_A
      and a = "acc0 init_database" and a' = a1 and tid = "''t1''"]
    t tc ex_item_A_facts(1,3)
  have 1: "tracker_version (a_db a1) ''t1''
      = tracker_version (a_db (acc0 init_database)) ''t1'' + 1"
    by blast
  from ex_entry_turn obtain a2 where
    e: "entry_item ''A'' ''2024-01-01T10:00:00Z'' ''2024-01-01'' ''t1'' ex_data_9
          (acc0 init_database) = Inr a2"
    and ec: "\<not> item_conflicted (acc0 init_database) a2"
    by (auto split: sum.splits)
  from inst [where c = "''A''" and n = "''2024-01-01T10:00:00Z''" and data = ex_data_9
      and a = "acc0 init_database" and a' = a2 and d = "''2024-01-01''" and t = "''t1''"]
    e ec
  have 2: "entry_version (a_db a2) ''2024-01-01'' ''t1''
      = entry_version (a_db (acc0 init_database)) ''2024-01-01'' ''t1'' + 1"
    by blast
  from ex_resolve_tracker_ok obtain s1 where
    rt: "resolve_tracker ''2024-01-03T10:00:00Z'' ''t1'' ''B'' ex_item_B ex_db_B = Inr s1"
    by (cases "resolve_tracker ''2024-01-03T10:00:00Z'' ''t1'' ''B'' ex_item_B ex_db_B") auto
  from inst [where n = "''2024-01-03T10:00:00Z''" and tid = "''t1''" and c = "''B''"
      and cd = ex_item_B and s = ex_db_B and s' = s1] rt
  have 3: "tracker_version s1 ''t1'' = tracker_version ex_db_B ''t1'' + 1"
    by blast
  from ex_resolve_entry_ok obtain s2 where
    re: "resolve_entry ''2024-03-06T10:00:00Z'' ''2024-03-05|t1'' ''B'' ex_data_9 ex_db_delta
          = Inr s2"
    by (cases "resolve_entry ''2024-03-06T10:00:00Z'' ''2024-03-05|t1'' ''B'' ex_data_9
          ex_db_delta") auto
  from inst [where n = "''2024-03-06T10:00:00Z''" and ei = "''2024-03-05|t1''" and c = "''B''"
      and cd = ex_data_9 and s = ex_db_delta and s' = s2] re ex_split
  have 4: "entry_version s2 ''2024-03-05'' ''t1''
      = entry_version ex_db_delta ''2024-03-05'' ''t1'' + 1"
    by auto
  from t tc 1 e ec 2 rt 3 re 4 ex_item_A_facts(1,3) show ?thesis by blast
qed

end
